theory Spec2Isabelle
  imports
    Complex_Main
    "HOL-Library.AList"
    "HOL-Library.Multiset"
    "HOL-Library.List_Lexorder"
    "HOL-Library.Char_ord"
    "HOL-Library.Word"
begin

section \<open>Go maps and the order of \<open>range\<close>\<close>

text \<open>
  A Go map is modelled by the list of its entries. The keys of a map are distinct
  (\<open>wf_map\<close>); \<open>map_of\<close> reads an entry, \<open>AList.update\<close> writes one (in place when the
  key is there, as a new entry otherwise) and \<open>length\<close> is Go's \<open>len\<close>.

  Go does not fix the order in which \<open>range\<close> visits the entries of a map: the runtime
  picks one at every loop. The model takes the runtime's choice as a list of numbers
  (\<open>range_order\<close>): the first number selects the entry visited first, the second selects
  among the remaining ones, and so on. Every choice visits every entry once
  (\<open>mset_range_order\<close>), and every order is the result of some choice
  (\<open>range_order_complete\<close>).
\<close>

type_synonym ('k, 'v) gomap = "('k \<times> 'v) list"

definition wf_map :: "('k, 'v) gomap \<Rightarrow> bool" where
  "wf_map m \<longleftrightarrow> distinct (map fst m)"

fun range_order :: "nat list \<Rightarrow> 'a list \<Rightarrow> 'a list" where
  "range_order [] xs = xs"
| "range_order (n # ns) xs =
     (if xs = [] then []
      else let i = n mod length xs
           in xs ! i # range_order ns (take i xs @ drop (Suc i) xs))"

section \<open>Data model (types.go)\<close>

text \<open>
  A value of Go's \<open>interface{}\<close> inside a Prometheus sample: a JSON number, an integer
  written by the program, or a string.
\<close>

datatype any = AnyFloat rat | AnyInt int | AnyString string

type_synonym labels = "(string, string) gomap"

record metric_entry =
  Metric :: labels

text \<open>One entry of \<open>PrometheusQueryResult.Data.Result\<close>.\<close>

record instant_entry = metric_entry +
  Value :: "any list"

text \<open>One entry of \<open>PrometheusQueryRangeResult.Data.Result\<close>.\<close>

record range_entry = metric_entry +
  Values :: "any list list"

record 'e prometheus_data =
  ResultType :: string
  Result :: "'e list"

record 'e prometheus_result =
  Status :: string
  Data :: "'e prometheus_data"

type_synonym PrometheusQueryResult = "instant_entry prometheus_result"
type_synonym PrometheusQueryRangeResult = "range_entry prometheus_result"

text \<open>The adjacency list \<open>map[string][]string\<close>: source workload to destinations.\<close>

type_synonym adjacency = "(string, string list) gomap"

section \<open>Adjacency extraction (istio\_connector.go)\<close>

text \<open>
  \<open>m[k]\<close> on a \<open>map[string]string\<close> is the empty string when the key is absent, and on
  a \<open>map[string][]string\<close> the nil slice, which has no element.
\<close>

definition label :: "labels \<Rightarrow> string \<Rightarrow> string" where
  "label m k = (case map_of m k of None \<Rightarrow> [] | Some v \<Rightarrow> v)"

definition slice_at :: "adjacency \<Rightarrow> string \<Rightarrow> string list" where
  "slice_at m k = (case map_of m k of None \<Rightarrow> [] | Some ds \<Rightarrow> ds)"

text \<open>The inner loop of \<open>ExtractAdjacencyList\<close>: is the destination already listed?\<close>

fun exists_dest :: "string list \<Rightarrow> string \<Rightarrow> bool" where
  "exists_dest [] destination = False"
| "exists_dest (dest # rest) destination =
     (if dest = destination then True else exists_dest rest destination)"

text \<open>
  The body of the outer loop, for one result entry. Every slice the function stores is
  made by \<open>make\<close> or \<open>append\<close>, so \<open>adjacencyList[source] == nil\<close> holds exactly when
  the source has no entry yet.
\<close>

definition extract_entry :: "adjacency \<Rightarrow> 'a instant_entry_scheme \<Rightarrow> adjacency" where
  "extract_entry adjacencyList r =
     (let source = label (Metric r) ''source_workload'';
          destination = label (Metric r) ''destination_workload''
      in if source \<noteq> [] \<and> destination \<noteq> [] then
           let adj1 = (if map_of adjacencyList source = None
                       then AList.update source [] adjacencyList
                       else adjacencyList);
               exists = exists_dest (slice_at adj1 source) destination
           in if \<not> exists
              then AList.update source (slice_at adj1 source @ [destination]) adj1
              else adj1
         else adjacencyList)"

definition ExtractAdjacencyList :: "PrometheusQueryResult \<Rightarrow> adjacency" where
  "ExtractAdjacencyList result = foldl extract_entry [] (Result (Data result))"

section \<open>Configuration and documents (types.go)\<close>

text \<open>A value of a YAML document, for the free-form \<open>health_config\<close> of a metric.\<close>

datatype yaml =
    YString string
  | YInt int
  | YBool bool
  | YList "yaml list"
  | YMap "(string \<times> yaml) list"

record MetricConfig =
  Name :: string
  Type :: string
  Unit :: string
  Description :: string
  AggregationLogic :: string
  HealthConfig :: "(string, yaml) gomap"

text \<open>
  \<open>OCSConfig\<close> and \<open>OCSContextDefinition\<close> both have the fields \<open>Policy\<close> and
  \<open>Metrics\<close>. The record they extend holds the two, so that each keeps the names of the
  source.
\<close>

record policy_metrics =
  Policy :: "string list"
  Metrics :: "MetricConfig list"

record OCSConfig = policy_metrics +
  Workload :: "string list"
  TimeWindowMinutes :: "int option"

text \<open>
  A \<open>time.Time\<close> without a monotonic reading holds the seconds since 1 January of the
  year 1 in a signed 64-bit counter, and the nanoseconds within the second.
  \<open>time.Unix(sec, nsec)\<close> adds \<open>unixToInternal\<close>, the seconds from the year 1 to 1970, to
  \<open>sec\<close> in 64 bits, and \<open>After\<close> compares the counters, then the nanoseconds; the Go
  documentation of \<open>time.Unix\<close> says that not all \<open>sec\<close> values have a corresponding time
  value, one of them being \<open>1<<63-1\<close>. A time is modelled by the instant its counter
  denotes, in nanoseconds since the Unix epoch, so that \<open>After\<close> is the order of the
  integers; \<open>Unix()\<close> takes the counter back to 1970, in 64 bits. \<open>time.Duration\<close> is a
  number of nanoseconds in 64 bits.
\<close>

type_synonym time = int

definition wrap64 :: "int \<Rightarrow> int" where
  "wrap64 x = sint (word_of_int x :: 64 word)"

definition unixToInternal :: int where
  "unixToInternal = 62135596800"

definition After :: "time \<Rightarrow> time \<Rightarrow> bool" where
  "After t u \<longleftrightarrow> t > u"

definition Unix :: "time \<Rightarrow> int" where
  "Unix t = wrap64 (t div 1000000000)"

definition time_Unix :: "int \<Rightarrow> int \<Rightarrow> time" where
  "time_Unix sec nsec = (wrap64 (sec + unixToInternal) - unixToInternal) * 1000000000 + nsec"

definition Minute :: int where
  "Minute = 60000000000"

text \<open>
  The driver writes a \<open>time.Time\<close> as a BSON datetime, a number of milliseconds: the
  timestamp that MongoDB stores, sorts on and returns is the time cut to the
  millisecond.
\<close>

definition bson_DateTime :: "time \<Rightarrow> time" where
  "bson_DateTime t = (t div 1000000) * 1000000"

type_synonym ObjectID = nat

record AdjacencyListDocument =
  ID :: ObjectID
  AdjacencyList :: adjacency
  Timestamp :: time
  SourceCount :: int
  TotalConnections :: int

text \<open>
  \<open>Topology\<close> is a \<open>map[string]interface{}\<close> whose values are workload lists, and
  \<open>Identity\<close> one whose only value is the workload's name. A \<open>Topology\<close> that was never
  assigned is the nil map, which has no entry.
\<close>

record OCSContextDefinition = policy_metrics +
  ResourceID :: string
  Domain' :: string
  Identity :: "(string, string) gomap"
  Topology :: "(string, string list) gomap"

record OCSPromptResponse =
  SpecVersion :: string
  ContextDefinitions :: "OCSContextDefinition list"

section \<open>Errors\<close>

text \<open>One constructor for every \<open>fmt.Errorf\<close> of the program, with the wrapped cause.\<close>

datatype error =
    NoSourceWorkloadsProvided
  | FailedToCreateRequest string
  | FailedToExecuteRequest string
  | PrometheusReturnedStatus nat string
  | FailedToDecodeResponse string
  | PrometheusQueryFailedWithStatus string
  | FailedToQueryMongoDB string
  | FailedToInsertDocument string
  | UnableToParseTimestamp
  | InvalidFromTimestampFormat error
  | InvalidToTimestampFormat error
  | FromTimestampMustBeBeforeToTimestamp
  | BothTimestampsOrNeither

section \<open>The Prometheus connector (istio\_connector.go)\<close>

text \<open>\<open>strings.Join\<close>: the elements with the separator between them.\<close>

fun strings_Join :: "string list \<Rightarrow> string \<Rightarrow> string" where
  "strings_Join [] sep = []"
| "strings_Join [x] sep = x"
| "strings_Join (x # y # rest) sep = x @ sep @ strings_Join (y # rest) sep"

text \<open>
  \<open>fmt.Sprintf("%v", m)\<close> for a \<open>map[string]string\<close>: Go prints \<open>map[k1:v1 k2:v2]\<close>,
  the keys in increasing order, the strings as they are.
\<close>

definition fmt_Sprintf_v :: "labels \<Rightarrow> string" where
  "fmt_Sprintf_v m =
     ''map['' @ strings_Join (map (\<lambda>k. k @ '':'' @ label m k) (sort (remdups (map fst m)))) '' '' @ '']''"

text \<open>The value type of \<open>uniqueMetrics\<close>: \<open>struct { Metric map[string]string; Seen bool }\<close>.\<close>

record seen_metric = metric_entry +
  Seen :: bool

text \<open>The first loop of \<open>convertRangeToInstantResult\<close>, over the series of the response.\<close>

fun track_unique ::
  "(string, seen_metric) gomap \<Rightarrow> range_entry list \<Rightarrow> (string, seen_metric) gomap" where
  "track_unique uniqueMetrics [] = uniqueMetrics"
| "track_unique uniqueMetrics (r # rest) =
     (let metricKey = fmt_Sprintf_v (Metric r)
      in track_unique
           (if map_of uniqueMetrics metricKey = None
            then AList.update metricKey \<lparr>Metric = Metric r, Seen = True\<rparr> uniqueMetrics
            else uniqueMetrics)
           rest)"

text \<open>
  The second loop ranges over \<open>uniqueMetrics\<close> in the order \<open>seed\<close> gives; \<open>now i\<close> is
  the reading of \<open>time.Now()\<close> when the \<open>i\<close>-th entry is appended.
\<close>

definition convertRangeToInstantResult ::
  "nat list \<Rightarrow> (nat \<Rightarrow> time) \<Rightarrow> PrometheusQueryRangeResult \<Rightarrow> PrometheusQueryResult" where
  "convertRangeToInstantResult seed now rangeResult =
     (let uniqueMetrics = track_unique [] (Result (Data rangeResult))
      in \<lparr>Status = Status rangeResult,
          Data = \<lparr>ResultType = [],
            Result =
              map (\<lambda>(i, (_, v)). \<lparr>Metric = Metric v, Value = [AnyInt (Unix (now i)), AnyString ''1'']\<rparr>)
                (enumerate 0 (range_order seed uniqueMetrics))\<rparr>\<rparr>)"

text \<open>
  What an HTTP exchange with Prometheus comes to: \<open>http.NewRequest\<close> fails, the
  client's \<open>Do\<close> fails, the status is not 200 (with the body read), the body does not
  decode, or it decodes to a value.
\<close>

datatype 'r http_outcome =
    NewRequestError string
  | DoError string
  | StatusNotOK nat string
  | DecodeError string
  | Decoded 'r

text \<open>The calls \<open>collectIstioMetricsHandler\<close> makes to the two backends.\<close>

datatype io =
    PrometheusQueryRange string int int string
  | PrometheusQuery string
  | MongoInsertOne

definition queryRange ::
  "(string \<Rightarrow> int \<Rightarrow> int \<Rightarrow> string \<Rightarrow> PrometheusQueryRangeResult http_outcome) \<Rightarrow>
   nat list \<Rightarrow> (nat \<Rightarrow> time) \<Rightarrow> string \<Rightarrow> time \<Rightarrow> time \<Rightarrow>
   (error + PrometheusQueryResult) \<times> io list" where
  "queryRange backend seed now query fromTimestamp toTimestamp =
     (let start = Unix fromTimestamp;
          end' = Unix toTimestamp;
          step = ''15s'';
          sent = [PrometheusQueryRange query start end' step]
      in case backend query start end' step of
           NewRequestError e \<Rightarrow> (Inl (FailedToCreateRequest e), [])
         | DoError e \<Rightarrow> (Inl (FailedToExecuteRequest e), sent)
         | StatusNotOK code body \<Rightarrow> (Inl (PrometheusReturnedStatus code body), sent)
         | DecodeError e \<Rightarrow> (Inl (FailedToDecodeResponse e), sent)
         | Decoded rangeResult \<Rightarrow>
             if Status rangeResult \<noteq> ''success''
             then (Inl (PrometheusQueryFailedWithStatus (Status rangeResult)), sent)
             else (Inr (convertRangeToInstantResult seed now rangeResult), sent))"

definition queryInstant ::
  "(string \<Rightarrow> PrometheusQueryResult http_outcome) \<Rightarrow> string \<Rightarrow>
   (error + PrometheusQueryResult) \<times> io list" where
  "queryInstant backend query =
     (let sent = [PrometheusQuery query]
      in case backend query of
           NewRequestError e \<Rightarrow> (Inl (FailedToCreateRequest e), [])
         | DoError e \<Rightarrow> (Inl (FailedToExecuteRequest e), sent)
         | StatusNotOK code body \<Rightarrow> (Inl (PrometheusReturnedStatus code body), sent)
         | DecodeError e \<Rightarrow> (Inl (FailedToDecodeResponse e), sent)
         | Decoded result \<Rightarrow>
             if Status result \<noteq> ''success''
             then (Inl (PrometheusQueryFailedWithStatus (Status result)), sent)
             else (Inr result, sent))"

text \<open>
  Everything the handlers take from outside the program: the two parsers of the
  standard library, the readings of the clock, the answers of Prometheus, the fresh
  object id, the failures of the MongoDB driver, the document MongoDB returns first
  among those with the same sort key, and the orders of \<open>range\<close>.
\<close>

record range_seeds =
  collect_seed :: "nat list"
  define_seed :: "nat list"
  topology_seed :: "string \<Rightarrow> nat list"

record env =
  time_Parse_RFC3339 :: "string \<Rightarrow> time option"
  strconv_ParseInt :: "string \<Rightarrow> int option"
  parse_now :: time
  prometheus_query_range :: "string \<Rightarrow> int \<Rightarrow> int \<Rightarrow> string \<Rightarrow> PrometheusQueryRangeResult http_outcome"
  prometheus_query :: "string \<Rightarrow> PrometheusQueryResult http_outcome"
  convert_seed :: "nat list"
  convert_now :: "nat \<Rightarrow> time"
  save_seed :: "nat list"
  new_object_id :: ObjectID
  save_now :: time
  insert_fault :: "string option"
  reply_now :: time
  find_fault :: "string option"
  find_tie :: nat
  context_seeds :: range_seeds

definition QueryMetrics ::
  "'a env_scheme \<Rightarrow> string list \<Rightarrow> time option \<Rightarrow> time option \<Rightarrow>
   (error + PrometheusQueryResult) \<times> io list" where
  "QueryMetrics e sourceWorkloads fromTimestamp toTimestamp =
     (if length sourceWorkloads = 0 then (Inl NoSourceWorkloadsProvided, [])
      else
        let workloadFilter = strings_Join sourceWorkloads ''|'';
            query = ''istio_requests_total{source_workload=~'' @ [CHR 0x22] @ workloadFilter
                      @ [CHR 0x22] @ ''}''
        in case (fromTimestamp, toTimestamp) of
             (Some f, Some t) \<Rightarrow>
               queryRange (prometheus_query_range e) (convert_seed e) (convert_now e) query f t
           | _ \<Rightarrow> queryInstant (prometheus_query e) query)"

section \<open>The repository (mongodb.go)\<close>

text \<open>
  The collection is the list of its documents, in the order of insertion.
  \<open>FindOne\<close> with the sort \<open>timestamp: -1\<close> returns a document whose timestamp is the
  greatest; the program gives no second sort key, so among several such documents
  the choice is MongoDB's, here the one numbered \<open>tie\<close>. \<open>fault\<close> is the error of the
  driver, if any, other than \<open>ErrNoDocuments\<close>.
\<close>

datatype mongo_error = ErrNoDocuments | DriverError string

definition latest_documents :: "AdjacencyListDocument list \<Rightarrow> AdjacencyListDocument list" where
  "latest_documents docs =
     filter (\<lambda>d. list_all (\<lambda>d'. Timestamp d' \<le> Timestamp d) docs) docs"

definition FindOne_sorted ::
  "string option \<Rightarrow> nat \<Rightarrow> AdjacencyListDocument list \<Rightarrow> mongo_error + AdjacencyListDocument" where
  "FindOne_sorted fault tie docs =
     (case fault of
        Some e \<Rightarrow> Inl (DriverError e)
      | None \<Rightarrow>
          (case latest_documents docs of
             [] \<Rightarrow> Inl ErrNoDocuments
           | c # cs \<Rightarrow> Inr ((c # cs) ! (tie mod length (c # cs)))))"

text \<open>The result is \<open>(map, error)\<close>; \<open>None\<close> is the nil map of \<open>return nil, nil\<close>.\<close>

definition GetLatestAdjacencyList ::
  "string option \<Rightarrow> nat \<Rightarrow> AdjacencyListDocument list \<Rightarrow> error + adjacency option" where
  "GetLatestAdjacencyList fault tie docs =
     (case FindOne_sorted fault tie docs of
        Inl ErrNoDocuments \<Rightarrow> Inr None
      | Inl (DriverError e) \<Rightarrow> Inl (FailedToQueryMongoDB e)
      | Inr doc \<Rightarrow> Inr (Some (AdjacencyList doc)))"

text \<open>The loop of \<open>SaveAdjacencyList\<close> that adds up the lengths.\<close>

fun total_connections :: "int \<Rightarrow> (string \<times> string list) list \<Rightarrow> int" where
  "total_connections totalConnections [] = totalConnections"
| "total_connections totalConnections ((_, dests) # rest) =
     total_connections (totalConnections + int (length dests)) rest"

text \<open>
  \<open>SaveAdjacencyList\<close> returns the id and the collection after the call: \<open>InsertOne\<close>
  appends the document, as MongoDB stores it, unless the driver fails.
\<close>

definition SaveAdjacencyList ::
  "nat list \<Rightarrow> ObjectID \<Rightarrow> time \<Rightarrow> string option \<Rightarrow> AdjacencyListDocument list \<Rightarrow> adjacency \<Rightarrow>
   (error + ObjectID) \<times> AdjacencyListDocument list" where
  "SaveAdjacencyList seed newObjectID now fault docs adjacencyList =
     (let totalConnections = total_connections 0 (range_order seed adjacencyList);
          doc = \<lparr>ID = newObjectID,
                 AdjacencyList = adjacencyList,
                 Timestamp = now,
                 SourceCount = int (length adjacencyList),
                 TotalConnections = totalConnections\<rparr>
      in case fault of
           Some e \<Rightarrow> (Inl (FailedToInsertDocument e), docs)
         | None \<Rightarrow>
             (Inr (ID doc), docs @ [doc\<lparr>Timestamp := bson_DateTime (Timestamp doc)\<rparr>]))"

section \<open>The context assembler (handlers.go)\<close>

text \<open>The inner and the outer loop of \<open>buildTopology\<close> that collect the dependents.\<close>

fun reverse_deps_of :: "string list \<Rightarrow> string \<Rightarrow> string \<Rightarrow> string list \<Rightarrow> string list" where
  "reverse_deps_of reverseDeps source workload [] = reverseDeps"
| "reverse_deps_of reverseDeps source workload (dest # rest) =
     reverse_deps_of (if dest = workload then reverseDeps @ [source] else reverseDeps)
       source workload rest"

fun reverse_deps :: "string list \<Rightarrow> string \<Rightarrow> (string \<times> string list) list \<Rightarrow> string list" where
  "reverse_deps reverseDeps workload [] = reverseDeps"
| "reverse_deps reverseDeps workload ((source, destinations) # rest) =
     reverse_deps (reverse_deps_of reverseDeps source workload destinations) workload rest"

definition buildTopology :: "nat list \<Rightarrow> adjacency \<Rightarrow> string \<Rightarrow> (string, string list) gomap" where
  "buildTopology seed adjacencyList workload =
     (let topology = [];
          topology =
            (case map_of adjacencyList workload of
               Some destinations \<Rightarrow>
                 if length destinations > 0
                 then AList.update ''dependencies'' destinations topology
                 else topology
             | None \<Rightarrow> topology);
          reverseDeps = reverse_deps [] workload (range_order seed adjacencyList)
      in if length reverseDeps > 0
         then AList.update ''dependents'' reverseDeps topology
         else topology)"

text \<open>The loops of \<open>buildContextDefinitions\<close> that fill \<open>workloadSet\<close>.\<close>

fun mark_workloads :: "(string, bool) gomap \<Rightarrow> string list \<Rightarrow> (string, bool) gomap" where
  "mark_workloads workloadSet [] = workloadSet"
| "mark_workloads workloadSet (w # rest) = mark_workloads (AList.update w True workloadSet) rest"

fun collect_workloads ::
  "(string, bool) gomap \<Rightarrow> (string \<times> string list) list \<Rightarrow> (string, bool) gomap" where
  "collect_workloads workloadSet [] = workloadSet"
| "collect_workloads workloadSet ((source, destinations) # rest) =
     collect_workloads (mark_workloads (AList.update source True workloadSet) destinations) rest"

definition context_definition :: "nat list \<Rightarrow> adjacency \<Rightarrow> OCSConfig \<Rightarrow> string \<Rightarrow> OCSContextDefinition" where
  "context_definition seed adjacencyList config workload =
     (let contextDef =
            \<lparr>Policy = Policy config,
             Metrics = Metrics config,
             ResourceID = ''workload-'' @ workload,
             Domain' = ''compute.k8s'',
             Identity = [(''workload'', workload)],
             Topology = []\<rparr>;
          topology = buildTopology seed adjacencyList workload
      in if length topology > 0 then contextDef\<lparr>Topology := topology\<rparr> else contextDef)"

definition buildContextDefinitions ::
  "range_seeds \<Rightarrow> adjacency \<Rightarrow> OCSConfig \<Rightarrow> OCSContextDefinition list" where
  "buildContextDefinitions seeds adjacencyList config =
     (let workloadSet = collect_workloads [] (range_order (collect_seed seeds) adjacencyList);
          workloadSet = mark_workloads workloadSet (Workload config)
      in map (\<lambda>(workload, _).
                context_definition (topology_seed seeds workload) adjacencyList config workload)
           (range_order (define_seed seeds) workloadSet))"

section \<open>The handlers (handlers.go)\<close>

text \<open>
  A request is the list of its query parameters; \<open>c.Query(key)\<close> is the empty string
  when the parameter is absent. A server is its configuration: the connector and the
  repository are handles on the backends, whose behaviour is in \<open>env\<close> and whose
  documents are passed along.
\<close>

type_synonym request = "(string \<times> string) list"

definition Query :: "request \<Rightarrow> string \<Rightarrow> string" where
  "Query c key = (case map_of c key of None \<Rightarrow> [] | Some v \<Rightarrow> v)"

record Server =
  ocsConfig :: OCSConfig

definition parseTimestamp :: "'a env_scheme \<Rightarrow> string \<Rightarrow> error + time" where
  "parseTimestamp e timestampStr =
     (case time_Parse_RFC3339 e timestampStr of
        Some t \<Rightarrow> Inr t
      | None \<Rightarrow>
          (case strconv_ParseInt e timestampStr of
             Some unixSec \<Rightarrow> Inr (time_Unix unixSec 0)
           | None \<Rightarrow> Inl UnableToParseTimestamp))"

text \<open>The result is the two pointers, \<open>None\<close> for nil, or the error.\<close>

definition parseTimestampParams ::
  "'a env_scheme \<Rightarrow> request \<Rightarrow> OCSConfig \<Rightarrow> error + (time option \<times> time option)" where
  "parseTimestampParams e c config =
     (let fromStr = Query c ''from_timestamp'';
          toStr = Query c ''to_timestamp''
      in if fromStr \<noteq> [] \<or> toStr \<noteq> [] then
           (case (if fromStr \<noteq> []
                  then (case parseTimestamp e fromStr of
                          Inl err \<Rightarrow> Inl (InvalidFromTimestampFormat err)
                        | Inr fromTime \<Rightarrow> Inr (Some fromTime))
                  else Inr None) of
              Inl err \<Rightarrow> Inl err
            | Inr fromTimestamp \<Rightarrow>
                (case (if toStr \<noteq> []
                       then (case parseTimestamp e toStr of
                               Inl err \<Rightarrow> Inl (InvalidToTimestampFormat err)
                             | Inr toTime \<Rightarrow> Inr (Some toTime))
                       else Inr None) of
                   Inl err \<Rightarrow> Inl err
                 | Inr toTimestamp \<Rightarrow>
                     if fromTimestamp \<noteq> None \<and> toTimestamp \<noteq> None then
                       (if After (the fromTimestamp) (the toTimestamp)
                        then Inl FromTimestampMustBeBeforeToTimestamp
                        else Inr (fromTimestamp, toTimestamp))
                     else if (fromTimestamp \<noteq> None \<and> toTimestamp = None)
                             \<or> (fromTimestamp = None \<and> toTimestamp \<noteq> None)
                     then Inl BothTimestampsOrNeither
                     else Inr (fromTimestamp, toTimestamp)))
         else
           (case TimeWindowMinutes config of
              Some minutes \<Rightarrow>
                let now = parse_now e;
                    windowDuration = wrap64 (wrap64 minutes * Minute);
                    fromTime = now + wrap64 (- windowDuration)
                in Inr (Some fromTime, Some now)
            | None \<Rightarrow> Inr (None, None)))"

text \<open>The JSON bodies of the responses.\<close>

datatype message =
    NoSourceWorkloadsConfigured
  | ErrorText error
  | FailedToRetrieveTopology error
  | FailedToQueryPrometheus error
  | FailedToSaveToMongoDB error

record collected =
  adjacency_list :: adjacency
  document_id :: ObjectID
  timestamp :: time
  from_to_timestamp :: "(time \<times> time) option"
  time_window_minutes :: "int option"

datatype body =
    ErrorBody message
  | PromptBody OCSPromptResponse
  | CollectedBody collected

record response =
  code :: nat
  json :: body

definition getOCSPromptHandler ::
  "'a env_scheme \<Rightarrow> Server \<Rightarrow> AdjacencyListDocument list \<Rightarrow> response" where
  "getOCSPromptHandler e s docs =
     (case GetLatestAdjacencyList (find_fault e) (find_tie e) docs of
        Inl err \<Rightarrow> \<lparr>code = 500, json = ErrorBody (FailedToRetrieveTopology err)\<rparr>
      | Inr adjacencyList \<Rightarrow>
          let adjacencyList = (case adjacencyList of None \<Rightarrow> [] | Some m \<Rightarrow> m);
              contextDefinitions = buildContextDefinitions (context_seeds e) adjacencyList (ocsConfig s)
          in \<lparr>code = 200,
              json = PromptBody \<lparr>SpecVersion = ''0.1'', ContextDefinitions = contextDefinitions\<rparr>\<rparr>)"

text \<open>
  The result of \<open>collectIstioMetricsHandler\<close> is the response, the calls made to the
  backends, in order, and the collection after the request.
\<close>

definition collectIstioMetricsHandler ::
  "'a env_scheme \<Rightarrow> Server \<Rightarrow> request \<Rightarrow> AdjacencyListDocument list \<Rightarrow>
   response \<times> io list \<times> AdjacencyListDocument list" where
  "collectIstioMetricsHandler e s c docs =
     (if length (Workload (ocsConfig s)) = 0
      then (\<lparr>code = 400, json = ErrorBody NoSourceWorkloadsConfigured\<rparr>, [], docs)
      else
        case parseTimestampParams e c (ocsConfig s) of
          Inl err \<Rightarrow> (\<lparr>code = 400, json = ErrorBody (ErrorText err)\<rparr>, [], docs)
        | Inr (fromTimestamp, toTimestamp) \<Rightarrow>
            (case QueryMetrics e (Workload (ocsConfig s)) fromTimestamp toTimestamp of
               (Inl err, sent) \<Rightarrow>
                 (\<lparr>code = 500, json = ErrorBody (FailedToQueryPrometheus err)\<rparr>, sent, docs)
             | (Inr result, sent) \<Rightarrow>
                 let adjacencyList = ExtractAdjacencyList result
                 in case SaveAdjacencyList (save_seed e) (new_object_id e) (save_now e)
                           (insert_fault e) docs adjacencyList of
                      (Inl err, docs') \<Rightarrow>
                        (\<lparr>code = 500, json = ErrorBody (FailedToSaveToMongoDB err)\<rparr>,
                         sent @ [MongoInsertOne], docs')
                    | (Inr docID, docs') \<Rightarrow>
                        (\<lparr>code = 200,
                          json = CollectedBody
                            \<lparr>adjacency_list = adjacencyList,
                             document_id = docID,
                             timestamp = reply_now e,
                             from_to_timestamp =
                               (if fromTimestamp \<noteq> None \<and> toTimestamp \<noteq> None
                                then Some (the fromTimestamp, the toTimestamp) else None),
                             time_window_minutes =
                               (if fromTimestamp \<noteq> None \<and> toTimestamp \<noteq> None
                                   \<and> TimeWindowMinutes (ocsConfig s) \<noteq> None
                                   \<and> Query c ''from_timestamp'' = []
                                   \<and> Query c ''to_timestamp'' = []
                                then TimeWindowMinutes (ocsConfig s) else None)\<rparr>\<rparr>,
                         sent @ [MongoInsertOne], docs')))"

section \<open>Invariants and examples\<close>

text \<open>What \<open>ExtractAdjacencyList\<close> keeps true of every destination list.\<close>

definition edges_ok :: "adjacency \<Rightarrow> bool" where
  "edges_ok adj \<longleftrightarrow> (\<forall>s ds. map_of adj s = Some ds \<longrightarrow> ds \<noteq> [] \<and> distinct ds)"

text \<open>An entry that has both workload labels.\<close>

definition has_workload_labels :: "'a metric_entry_scheme \<Rightarrow> bool" where
  "has_workload_labels r \<longleftrightarrow>
     map_of (Metric r) ''source_workload'' \<noteq> None \<and> map_of (Metric r) ''destination_workload'' \<noteq> None"

text \<open>
  A result set with a repeated edge, written with the labels in either order, and two
  entries that miss a label.
\<close>

definition example_result :: PrometheusQueryResult where
  "example_result =
     \<lparr>Status = ''success'',
      Data = \<lparr>ResultType = ''vector'',
        Result =
          [\<lparr>Metric = [(''source_workload'', ''a''), (''destination_workload'', ''b'')], Value = []\<rparr>,
           \<lparr>Metric = [(''source_workload'', ''a'')], Value = []\<rparr>,
           \<lparr>Metric = [(''destination_workload'', ''b''), (''source_workload'', ''a'')], Value = []\<rparr>,
           \<lparr>Metric = [(''destination_workload'', ''c'')], Value = []\<rparr>,
           \<lparr>Metric = [(''source_workload'', ''a''), (''destination_workload'', ''c'')], Value = []\<rparr>]\<rparr>\<rparr>"

text \<open>
  The workload a context definition is for; the sources that list a workload among
  their destinations; the workloads that occur in an adjacency list as a source or as
  a destination.
\<close>

definition workload_of :: "OCSContextDefinition \<Rightarrow> string" where
  "workload_of contextDef = label (Identity contextDef) ''workload''"

definition dependents_of :: "adjacency \<Rightarrow> string \<Rightarrow> string set" where
  "dependents_of adjacencyList workload =
     {source. \<exists>destinations. map_of adjacencyList source = Some destinations \<and> workload \<in> set destinations}"

definition workloads_of :: "adjacency \<Rightarrow> string set" where
  "workloads_of adjacencyList =
     dom (map_of adjacencyList) \<union> {dest. \<exists>source. dest \<in> set (slice_at adjacencyList source)}"

text \<open>
  The example of the specification: four configured workloads, \<open>app\<close> calls
  \<open>database\<close> and \<open>cache\<close>, and \<open>proxy\<close> calls \<open>app\<close>.
\<close>

definition example_adjacency :: adjacency where
  "example_adjacency = [(''app'', [''database'', ''cache'']), (''proxy'', [''app''])]"

definition example_config :: OCSConfig where
  "example_config =
     \<lparr>Policy = [''p''], Metrics = [], Workload = [''database'', ''cache'', ''app'', ''proxy''],
      TimeWindowMinutes = None\<rparr>"

definition example_seeds :: range_seeds where
  "example_seeds = \<lparr>collect_seed = [1], define_seed = [2, 0], topology_seed = (\<lambda>w. [1])\<rparr>"

text \<open>
  An environment in which Prometheus is down and MongoDB answers, with a parser that
  reads two Unix timestamps; a stored document; two requests.
\<close>

definition example_ParseInt :: "string \<Rightarrow> int option" where
  "example_ParseInt s =
     (if s = ''200'' then Some 200
      else if s = ''100'' then Some 100
      else if s = ''0'' then Some 0
      else if s = ''9223372036854775807'' then Some 9223372036854775807
      else None)"

definition example_env :: env where
  "example_env =
     \<lparr>time_Parse_RFC3339 = (\<lambda>s. None),
      strconv_ParseInt = example_ParseInt,
      parse_now = 1000,
      prometheus_query_range = (\<lambda>query start end' step. DoError ''connection refused''),
      prometheus_query = (\<lambda>query. DoError ''connection refused''),
      convert_seed = [],
      convert_now = (\<lambda>i. 0),
      save_seed = [],
      new_object_id = 1,
      save_now = 0,
      insert_fault = None,
      reply_now = 0,
      find_fault = None,
      find_tie = 0,
      context_seeds = example_seeds\<rparr>"

definition example_server :: Server where
  "example_server = \<lparr>ocsConfig = example_config\<rparr>"

definition example_document :: AdjacencyListDocument where
  "example_document =
     \<lparr>ID = 1, AdjacencyList = [(''a'', [''b''])], Timestamp = 1000000, SourceCount = 1,
      TotalConnections = 1\<rparr>"

definition example_inverted :: request where
  "example_inverted = [(''from_timestamp'', ''200''), (''to_timestamp'', ''100'')]"

definition example_overflow :: request where
  "example_overflow = [(''from_timestamp'', ''9223372036854775807''), (''to_timestamp'', ''0'')]"

definition example_lone :: request where
  "example_lone = [(''from_timestamp'', ''100'')]"

text \<open>
  The entries of \<open>uniqueMetrics\<close> are stored under the rendering of their label set.
\<close>

definition keyed :: "(string, seen_metric) gomap \<Rightarrow> bool" where
  "keyed um \<longleftrightarrow> list_all (\<lambda>(k, v). k = fmt_Sprintf_v (Metric v)) um"

text \<open>
  A ranged response with two series whose label sets differ and have the same
  rendering: in the first the destination is the workload \<open>b response_code:200\<close>, in
  the second it is \<open>b\<close> and \<open>response_code\<close> is a label.
\<close>

definition colliding_response :: PrometheusQueryRangeResult where
  "colliding_response =
     \<lparr>Status = ''success'',
      Data = \<lparr>ResultType = ''matrix'',
        Result =
          [\<lparr>Metric = [(''destination_workload'', ''b response_code:200''), (''source_workload'', ''a'')],
            Values = [[AnyInt 1, AnyString ''5'']]\<rparr>,
           \<lparr>Metric = [(''destination_workload'', ''b''), (''response_code'', ''200''),
                      (''source_workload'', ''a'')],
            Values = [[AnyInt 1, AnyString ''7'']]\<rparr>]\<rparr>\<rparr>"

section \<open>Properties of the order of \<open>range\<close>\<close>

lemma mset_range_order: "mset (range_order ns xs) = mset xs"
proof (induction ns arbitrary: xs)
  case Nil
  show ?case by simp
next
  case (Cons n ns)
  show ?case
  proof (cases "xs = []")
    case True
    then show ?thesis by simp
  next
    case False
    define i where "i = n mod length xs"
    have i: "i < length xs" using False by (simp add: i_def)
    have "mset xs = mset (take i xs @ xs ! i # drop (Suc i) xs)"
      using id_take_nth_drop [OF i] by simp
    then have "mset xs = add_mset (xs ! i) (mset (take i xs @ drop (Suc i) xs))"
      by simp
    with Cons.IH [of "take i xs @ drop (Suc i) xs"] False show ?thesis
      by (simp add: i_def Let_def)
  qed
qed

lemma set_range_order: "set (range_order ns xs) = set xs"
  using mset_range_order [of ns xs] by (metis set_mset_mset)

lemma length_range_order: "length (range_order ns xs) = length xs"
  using mset_range_order [of ns xs] by (metis size_mset)

lemma distinct_range_order: "distinct (range_order ns xs) = distinct xs"
  using mset_range_order [of ns xs] by (metis distinct_count_atmost_1 set_mset_mset)

lemma range_order_complete: "mset ys = mset xs \<Longrightarrow> \<exists>ns. range_order ns xs = ys"
proof (induction ys arbitrary: xs)
  case Nil
  then have "range_order [] xs = []" by simp
  then show ?case by blast
next
  case (Cons y ys)
  from Cons.prems have "y \<in> set xs"
    by (metis list.set_intros(1) set_mset_mset)
  then obtain i where i: "i < length xs" and y: "xs ! i = y"
    by (auto simp: in_set_conv_nth)
  let ?rest = "take i xs @ drop (Suc i) xs"
  have "mset xs = add_mset y (mset ?rest)"
    using id_take_nth_drop [OF i] y by (metis mset.simps(2) mset_append union_mset_add_mset_right)
  with Cons.prems have "mset ys = mset ?rest" by simp
  from Cons.IH [OF this] obtain ns where ns: "range_order ns ?rest = ys" by blast
  from i have ne: "xs \<noteq> []" by auto
  have "range_order (i # ns) xs = y # ys"
    using i y ns ne by (simp add: Let_def)
  then show ?case by blast
qed

lemma range_order_Nil: "range_order ns [] = []"
  by (cases ns) simp_all

lemma range_order_singleton: "range_order ns [x] = [x]"
  by (cases ns) (simp_all add: range_order_Nil)

lemma wf_map_range_order: "wf_map (range_order ns xs) = wf_map xs"
proof -
  have "mset (map fst (range_order ns xs)) = mset (map fst xs)"
    by (simp add: mset_range_order)
  then show ?thesis
    unfolding wf_map_def by (metis distinct_count_atmost_1 set_mset_mset)
qed

section \<open>Adjacency extraction: no duplicate, no empty list, unlabelled entries dropped\<close>

lemma exists_dest_iff: "exists_dest ds d \<longleftrightarrow> d \<in> set ds"
  by (induction ds) auto

lemma slice_at_update: "slice_at (AList.update k v m) k' = (if k' = k then v else slice_at m k')"
  by (simp add: slice_at_def update_conv')

lemma extract_entry_skip:
  "label (Metric r) ''source_workload'' = [] \<or> label (Metric r) ''destination_workload'' = []
   \<Longrightarrow> extract_entry adj r = adj"
  by (auto simp: extract_entry_def Let_def)

lemma map_of_extract_entry:
  assumes "label (Metric r) ''source_workload'' = s" and "label (Metric r) ''destination_workload'' = d"
    and "s \<noteq> []" and "d \<noteq> []"
  shows "map_of (extract_entry adj r) =
     (map_of adj)(s \<mapsto> (if d \<in> set (slice_at adj s) then slice_at adj s else slice_at adj s @ [d]))"
proof (cases "map_of adj s")
  case None
  then show ?thesis
    unfolding extract_entry_def Let_def assms(1,2) using assms(3,4)
    by (simp add: exists_dest_iff slice_at_update update_conv' slice_at_def)
next
  case (Some ds)
  then have "(map_of adj)(s \<mapsto> ds) = map_of adj" by (simp add: fun_upd_idem)
  with Some show ?thesis
    unfolding extract_entry_def Let_def assms(1,2) using assms(3,4)
    by (simp add: exists_dest_iff slice_at_update update_conv' slice_at_def)
qed

lemma wf_map_extract_entry: "wf_map adj \<Longrightarrow> wf_map (extract_entry adj r)"
  by (simp add: extract_entry_def Let_def wf_map_def distinct_update)

lemma edges_ok_extract_entry:
  assumes "edges_ok adj" shows "edges_ok (extract_entry adj r)"
proof (cases "label (Metric r) ''source_workload'' = [] \<or> label (Metric r) ''destination_workload'' = []")
  case True
  with assms show ?thesis by (simp add: extract_entry_skip)
next
  case False
  define s where "s = label (Metric r) ''source_workload''"
  define d where "d = label (Metric r) ''destination_workload''"
  have m: "map_of (extract_entry adj r) =
     (map_of adj)(s \<mapsto> (if d \<in> set (slice_at adj s) then slice_at adj s else slice_at adj s @ [d]))"
    using False by (intro map_of_extract_entry) (simp_all add: s_def d_def)
  have old: "distinct (slice_at adj s)"
  proof (cases "map_of adj s")
    case None
    then show ?thesis by (simp add: slice_at_def)
  next
    case (Some ds)
    with assms have "distinct ds" unfolding edges_ok_def by blast
    with Some show ?thesis by (simp add: slice_at_def)
  qed
  let ?new = "if d \<in> set (slice_at adj s) then slice_at adj s else slice_at adj s @ [d]"
  have "d \<in> set (slice_at adj s) \<Longrightarrow> slice_at adj s \<noteq> []" by auto
  with old have new: "?new \<noteq> [] \<and> distinct ?new"
    by simp
  show ?thesis
    unfolding edges_ok_def
  proof (intro allI impI)
    fix s' ds
    assume a: "map_of (extract_entry adj r) s' = Some ds"
    show "ds \<noteq> [] \<and> distinct ds"
    proof (cases "s' = s")
      case True
      with a m have "ds = ?new" by simp
      with new show ?thesis by simp
    next
      case False
      with a m have "map_of adj s' = Some ds" by simp
      with assms show ?thesis unfolding edges_ok_def by blast
    qed
  qed
qed

lemma foldl_extract_inv:
  "wf_map adj \<Longrightarrow> edges_ok adj \<Longrightarrow> wf_map (foldl extract_entry adj rs) \<and> edges_ok (foldl extract_entry adj rs)"
  by (induction rs arbitrary: adj) (simp_all add: wf_map_extract_entry edges_ok_extract_entry)

lemma slice_at_extract_entry_mono: "set (slice_at adj s) \<subseteq> set (slice_at (extract_entry adj r) s)"
proof (cases "label (Metric r) ''source_workload'' = [] \<or> label (Metric r) ''destination_workload'' = []")
  case True
  then show ?thesis by (simp add: extract_entry_skip)
next
  case False
  then show ?thesis
    by (auto simp: slice_at_def map_of_extract_entry [OF refl refl] split: option.splits)
qed

lemma slice_at_foldl_mono: "set (slice_at adj s) \<subseteq> set (slice_at (foldl extract_entry adj rs) s)"
proof (induction rs arbitrary: adj)
  case Nil show ?case by simp
next
  case (Cons r rs)
  show ?case using slice_at_extract_entry_mono [of adj s r] Cons.IH [of "extract_entry adj r"] by auto
qed

lemma extract_entry_adds:
  "label (Metric r) ''source_workload'' = s \<Longrightarrow> label (Metric r) ''destination_workload'' = d
   \<Longrightarrow> s \<noteq> [] \<Longrightarrow> d \<noteq> [] \<Longrightarrow> d \<in> set (slice_at (extract_entry adj r) s)"
  by (simp add: slice_at_def map_of_extract_entry)

lemma foldl_extract_adds:
  "r \<in> set rs \<Longrightarrow> label (Metric r) ''source_workload'' = s \<Longrightarrow> label (Metric r) ''destination_workload'' = d
   \<Longrightarrow> s \<noteq> [] \<Longrightarrow> d \<noteq> [] \<Longrightarrow> d \<in> set (slice_at (foldl extract_entry adj rs) s)"
proof (induction rs arbitrary: adj)
  case Nil then show ?case by simp
next
  case (Cons a rs)
  show ?case
  proof (cases "r = a")
    case True
    with Cons.prems have "d \<in> set (slice_at (extract_entry adj a) s)"
      using extract_entry_adds by blast
    then show ?thesis using slice_at_foldl_mono [of "extract_entry adj a" s rs] by auto
  next
    case False
    with Cons.prems have "r \<in> set rs" by simp
    from Cons.IH [OF this Cons.prems(2-5)] show ?thesis by simp
  qed
qed

lemma ExtractAdjacencyList_inv:
  "wf_map (ExtractAdjacencyList result) \<and> edges_ok (ExtractAdjacencyList result)"
  unfolding ExtractAdjacencyList_def
  by (rule foldl_extract_inv) (simp_all add: wf_map_def edges_ok_def)

lemma count_list_distinct: "distinct xs \<Longrightarrow> x \<in> set xs \<Longrightarrow> count_list xs x = 1"
  by (induction xs) auto

lemma length_wf_map: "wf_map m \<Longrightarrow> length m = card (dom (map_of m))"
proof -
  assume "wf_map m"
  then have "card (set (map fst m)) = length (map fst m)"
    unfolding wf_map_def by (rule distinct_card)
  then show ?thesis by (simp add: dom_map_of_conv_image_fst)
qed

lemma foldl_extract_filter:
  "foldl extract_entry adj (filter has_workload_labels rs) = foldl extract_entry adj rs"
proof (induction rs arbitrary: adj)
  case Nil show ?case by simp
next
  case (Cons r rs)
  show ?case
  proof (cases "has_workload_labels r")
    case True
    with Cons.IH show ?thesis by simp
  next
    case False
    then have "label (Metric r) ''source_workload'' = [] \<or> label (Metric r) ''destination_workload'' = []"
      by (auto simp: has_workload_labels_def label_def)
    then have "extract_entry adj r = adj" by (rule extract_entry_skip)
    with False Cons.IH show ?thesis by simp
  qed
qed

lemma ExtractAdjacencyList_example:
  "ExtractAdjacencyList example_result = [(''a'', [''b'', ''c''])]"
  by (simp add: ExtractAdjacencyList_def example_result_def extract_entry_def label_def slice_at_def)

text \<open>
  Claim C4. For every result set, no destination list of the mapping that
  \<open>ExtractAdjacencyList\<close> returns has a duplicate, and an entry of the input with both
  labels leaves its destination exactly once in the list of its source, however often
  the pair occurs in the input.
\<close>

theorem ExtractAdjacencyList_no_duplicates:
  "(\<forall>source dests. map_of (ExtractAdjacencyList result) source = Some dests \<longrightarrow> distinct dests) \<and>
   (\<forall>r \<in> set (Result (Data result)).
      label (Metric r) ''source_workload'' \<noteq> [] \<and> label (Metric r) ''destination_workload'' \<noteq> [] \<longrightarrow>
      count_list (slice_at (ExtractAdjacencyList result) (label (Metric r) ''source_workload''))
        (label (Metric r) ''destination_workload'') = 1)"
proof (intro conjI allI impI ballI)
  fix source dests
  assume "map_of (ExtractAdjacencyList result) source = Some dests"
  with ExtractAdjacencyList_inv [of result] show "distinct dests"
    unfolding edges_ok_def by blast
next
  fix r
  assume r: "r \<in> set (Result (Data result))"
    and l: "label (Metric r) ''source_workload'' \<noteq> [] \<and> label (Metric r) ''destination_workload'' \<noteq> []"
  let ?s = "label (Metric r) ''source_workload''" and ?d = "label (Metric r) ''destination_workload''"
  let ?ds = "slice_at (ExtractAdjacencyList result) ?s"
  have mem: "?d \<in> set ?ds"
    unfolding ExtractAdjacencyList_def using r l by (intro foldl_extract_adds [of r]) simp_all
  have "distinct ?ds"
  proof (cases "map_of (ExtractAdjacencyList result) ?s")
    case None
    then show ?thesis by (simp add: slice_at_def)
  next
    case (Some ds)
    with ExtractAdjacencyList_inv [of result] have "distinct ds"
      unfolding edges_ok_def by blast
    with Some show ?thesis by (simp add: slice_at_def)
  qed
  then show "count_list ?ds ?d = 1" using mem by (rule count_list_distinct)
qed

theorem ExtractAdjacencyList_no_duplicates_witness:
  "map_of (ExtractAdjacencyList example_result) ''a'' = Some [''b'', ''c''] \<and>
   distinct [''b'', ''c''] \<and>
   count_list (slice_at (ExtractAdjacencyList example_result) ''a'') ''b'' = 1"
proof -
  let ?r = "\<lparr>Metric = [(''source_workload'', ''a''), (''destination_workload'', ''b'')], Value = []\<rparr>"
  have m: "map_of (ExtractAdjacencyList example_result) ''a'' = Some [''b'', ''c'']"
    by (simp add: ExtractAdjacencyList_example)
  have r: "?r \<in> set (Result (Data example_result))"
    by (simp add: example_result_def)
  have l: "label (Metric ?r) ''source_workload'' = ''a'' \<and> label (Metric ?r) ''destination_workload'' = ''b''"
    by (simp add: label_def)
  from ExtractAdjacencyList_no_duplicates [of example_result] m have "distinct [''b'', ''c'']"
    by blast
  moreover from ExtractAdjacencyList_no_duplicates [of example_result] r l
  have "count_list (slice_at (ExtractAdjacencyList example_result) ''a'') ''b'' = 1"
    by fastforce
  ultimately show ?thesis using m by simp
qed

text \<open>
  Claim C7. An entry that misses the label \<open>source_workload\<close> or the label
  \<open>destination_workload\<close> leaves the mapping as it was, and \<open>ExtractAdjacencyList\<close>
  returns the same mapping as on the result set without such entries. The function
  has no error result.
\<close>

theorem ExtractAdjacencyList_drops_unlabelled:
  "(map_of (Metric r) ''source_workload'' = None \<or> map_of (Metric r) ''destination_workload'' = None
      \<longrightarrow> extract_entry adj r = adj) \<and>
   ExtractAdjacencyList result =
     ExtractAdjacencyList
       (result\<lparr>Data := (Data result)\<lparr>Result := filter has_workload_labels (Result (Data result))\<rparr>\<rparr>)"
proof (intro conjI impI)
  assume "map_of (Metric r) ''source_workload'' = None \<or> map_of (Metric r) ''destination_workload'' = None"
  then have "label (Metric r) ''source_workload'' = [] \<or> label (Metric r) ''destination_workload'' = []"
    by (auto simp: label_def)
  then show "extract_entry adj r = adj" by (rule extract_entry_skip)
next
  show "ExtractAdjacencyList result =
     ExtractAdjacencyList
       (result\<lparr>Data := (Data result)\<lparr>Result := filter has_workload_labels (Result (Data result))\<rparr>\<rparr>)"
    by (simp add: ExtractAdjacencyList_def foldl_extract_filter)
qed

theorem ExtractAdjacencyList_drops_unlabelled_witness:
  "extract_entry [(''a'', [''b''])] \<lparr>Metric = [(''destination_workload'', ''c'')], Value = []\<rparr>
     = [(''a'', [''b''])] \<and>
   ExtractAdjacencyList example_result =
     ExtractAdjacencyList
       \<lparr>Status = ''success'',
        Data = \<lparr>ResultType = ''vector'',
          Result =
            [\<lparr>Metric = [(''source_workload'', ''a''), (''destination_workload'', ''b'')], Value = []\<rparr>,
             \<lparr>Metric = [(''destination_workload'', ''b''), (''source_workload'', ''a'')], Value = []\<rparr>,
             \<lparr>Metric = [(''source_workload'', ''a''), (''destination_workload'', ''c'')], Value = []\<rparr>]\<rparr>\<rparr>"
proof -
  let ?r = "\<lparr>Metric = [(''destination_workload'', ''c'')], Value = []\<rparr>"
  have "map_of (Metric ?r) ''source_workload'' = None" by simp
  with ExtractAdjacencyList_drops_unlabelled [of ?r "[(''a'', [''b''])]" example_result]
  have 1: "extract_entry [(''a'', [''b''])] ?r = [(''a'', [''b''])]"
    and 2: "ExtractAdjacencyList example_result =
      ExtractAdjacencyList
        (example_result\<lparr>Data := (Data example_result)\<lparr>Result :=
           filter has_workload_labels (Result (Data example_result))\<rparr>\<rparr>)"
    by blast+
  from 2 have "ExtractAdjacencyList example_result =
     ExtractAdjacencyList
       \<lparr>Status = ''success'',
        Data = \<lparr>ResultType = ''vector'',
          Result =
            [\<lparr>Metric = [(''source_workload'', ''a''), (''destination_workload'', ''b'')], Value = []\<rparr>,
             \<lparr>Metric = [(''destination_workload'', ''b''), (''source_workload'', ''a'')], Value = []\<rparr>,
             \<lparr>Metric = [(''source_workload'', ''a''), (''destination_workload'', ''c'')], Value = []\<rparr>]\<rparr>\<rparr>"
    by (simp add: example_result_def has_workload_labels_def)
  with 1 show ?thesis by blast
qed

text \<open>
  Claim C9. The mapping that \<open>ExtractAdjacencyList\<close> returns has distinct keys, every
  key has a destination list that is not empty, and the number of its keys (Go's
  \<open>len\<close>) is the number of sources with at least one edge.
\<close>

theorem ExtractAdjacencyList_sources_nonempty:
  "wf_map (ExtractAdjacencyList result) \<and>
   (\<forall>source dests. map_of (ExtractAdjacencyList result) source = Some dests \<longrightarrow> dests \<noteq> []) \<and>
   length (ExtractAdjacencyList result) =
     card {source. \<exists>dests. map_of (ExtractAdjacencyList result) source = Some dests \<and> dests \<noteq> []}"
proof -
  let ?E = "ExtractAdjacencyList result"
  have wf: "wf_map ?E" and ok: "edges_ok ?E" using ExtractAdjacencyList_inv [of result] by simp_all
  have ne: "\<forall>source dests. map_of ?E source = Some dests \<longrightarrow> dests \<noteq> []"
    using ok unfolding edges_ok_def by blast
  then have "{source. \<exists>dests. map_of ?E source = Some dests \<and> dests \<noteq> []} = dom (map_of ?E)"
    by (auto simp: dom_def)
  with length_wf_map [OF wf] wf ne show ?thesis by simp
qed

theorem ExtractAdjacencyList_sources_nonempty_witness:
  "map_of (ExtractAdjacencyList example_result) ''a'' = Some [''b'', ''c''] \<and>
   [''b'', ''c''] \<noteq> [] \<and>
   length (ExtractAdjacencyList example_result) = 1"
proof -
  have m: "map_of (ExtractAdjacencyList example_result) ''a'' = Some [''b'', ''c'']"
    by (simp add: ExtractAdjacencyList_example)
  with ExtractAdjacencyList_sources_nonempty [of example_result] have "[''b'', ''c''] \<noteq> []"
    by blast
  with m show ?thesis by (simp add: ExtractAdjacencyList_example)
qed

section \<open>The Prometheus connector: one entry per rendering of a label set\<close>

lemma update_fresh: "map_of al k = None \<Longrightarrow> AList.update k v al = al @ [(k, v)]"
  by (induction al) (auto split: if_splits)

lemma track_unique_Cons:
  "track_unique um (r # rest) =
     track_unique (if map_of um (fmt_Sprintf_v (Metric r)) = None
                   then um @ [(fmt_Sprintf_v (Metric r), \<lparr>Metric = Metric r, Seen = True\<rparr>)]
                   else um) rest"
  by (simp add: Let_def update_fresh)

lemma keys_track_unique:
  "fst ` set (track_unique um rs) = fst ` set um \<union> (\<lambda>r. fmt_Sprintf_v (Metric r)) ` set rs"
proof (induction rs arbitrary: um)
  case Nil
  show ?case by simp
next
  case (Cons r rs)
  have "map_of um (fmt_Sprintf_v (Metric r)) \<noteq> None \<Longrightarrow> fmt_Sprintf_v (Metric r) \<in> fst ` set um"
    by (simp add: map_of_eq_None_iff)
  then show ?case
    unfolding track_unique_Cons Cons.IH by auto
qed

lemma wf_map_track_unique: "wf_map um \<Longrightarrow> wf_map (track_unique um rs)"
proof (induction rs arbitrary: um)
  case Nil
  then show ?case by simp
next
  case (Cons r rs)
  have "map_of um (fmt_Sprintf_v (Metric r)) = None \<Longrightarrow> fmt_Sprintf_v (Metric r) \<notin> fst ` set um"
    by (simp add: map_of_eq_None_iff)
  with Cons.prems have "wf_map (if map_of um (fmt_Sprintf_v (Metric r)) = None
                   then um @ [(fmt_Sprintf_v (Metric r), \<lparr>Metric = Metric r, Seen = True\<rparr>)]
                   else um)"
    by (simp add: wf_map_def)
  then show ?case unfolding track_unique_Cons by (rule Cons.IH)
qed

lemma keyed_track_unique: "keyed um \<Longrightarrow> keyed (track_unique um rs)"
proof (induction rs arbitrary: um)
  case Nil
  then show ?case by simp
next
  case (Cons r rs)
  from Cons.prems have "keyed (if map_of um (fmt_Sprintf_v (Metric r)) = None
                   then um @ [(fmt_Sprintf_v (Metric r), \<lparr>Metric = Metric r, Seen = True\<rparr>)]
                   else um)"
    by (simp add: keyed_def)
  then show ?case unfolding track_unique_Cons by (rule Cons.IH)
qed

lemma from_input_track_unique:
  "Metric ` snd ` set (track_unique um rs) \<subseteq> Metric ` snd ` set um \<union> Metric ` set rs"
proof (induction rs arbitrary: um)
  case Nil
  show ?case by simp
next
  case (Cons r rs)
  define um' where "um' = (if map_of um (fmt_Sprintf_v (Metric r)) = None
              then um @ [(fmt_Sprintf_v (Metric r), \<lparr>Metric = Metric r, Seen = True\<rparr>)]
              else um)"
  have a: "Metric ` snd ` set um' \<subseteq> Metric ` snd ` set um \<union> {Metric r}"
    by (auto simp: um'_def)
  have b: "Metric ` snd ` set (track_unique um' rs) \<subseteq> Metric ` snd ` set um' \<union> Metric ` set rs"
    by (rule Cons.IH)
  have "Metric ` snd ` set um' \<union> Metric ` set rs
          \<subseteq> (Metric ` snd ` set um \<union> {Metric r}) \<union> Metric ` set rs"
    using a by (rule Un_mono) simp
  with b have "Metric ` snd ` set (track_unique um' rs)
          \<subseteq> (Metric ` snd ` set um \<union> {Metric r}) \<union> Metric ` set rs"
    by (rule subset_trans)
  moreover have "track_unique um (r # rs) = track_unique um' rs"
    unfolding um'_def by (rule track_unique_Cons)
  ultimately show ?case by auto
qed

lemma track_unique_cong:
  "map Metric rs = map Metric rs' \<Longrightarrow> track_unique um rs = track_unique um rs'"
proof (induction rs arbitrary: rs' um)
  case Nil
  then show ?case by simp
next
  case (Cons r rs)
  then obtain r' rest' where rs': "rs' = r' # rest'" and m: "Metric r = Metric r'"
    and rest: "map Metric rs = map Metric rest'"
    by (cases rs') auto
  show ?case
    unfolding rs' track_unique_Cons m using Cons.IH [OF rest] by simp
qed

lemma Metric_enumerate:
  "map Metric (map (\<lambda>(i, (k, v)). \<lparr>Metric = Metric v, Value = g i\<rparr>) (enumerate n xs)) =
     map (\<lambda>p. Metric (snd p)) xs"
  by (induction xs arbitrary: n) (simp_all add: case_prod_beta)

lemma Metric_convertRangeToInstantResult:
  "map Metric (Result (Data (convertRangeToInstantResult seed now rangeResult))) =
     map (\<lambda>p. Metric (snd p)) (range_order seed (track_unique [] (Result (Data rangeResult))))"
  by (simp add: convertRangeToInstantResult_def Let_def Metric_enumerate [unfolded map_map])

lemma keyed_fst: "keyed um \<Longrightarrow> map (\<lambda>p. fmt_Sprintf_v (Metric (snd p))) um = map fst um"
  by (induction um) (auto simp: keyed_def)

lemma keyed_range_order: "keyed um \<Longrightarrow> keyed (range_order seed um)"
  using set_range_order [of seed um] by (simp add: keyed_def list_all_iff)

text \<open>One entry for every distinct rendering of a label set.\<close>

lemma convertRangeToInstantResult_one_per_key:
  "distinct (map (\<lambda>r. fmt_Sprintf_v (Metric r))
               (Result (Data (convertRangeToInstantResult seed now rangeResult)))) \<and>
   (\<lambda>r. fmt_Sprintf_v (Metric r)) ` set (Result (Data (convertRangeToInstantResult seed now rangeResult)))
     = (\<lambda>r. fmt_Sprintf_v (Metric r)) ` set (Result (Data rangeResult)) \<and>
   Metric ` set (Result (Data (convertRangeToInstantResult seed now rangeResult)))
     \<subseteq> Metric ` set (Result (Data rangeResult))"
proof -
  let ?um = "track_unique [] (Result (Data rangeResult))"
  let ?out = "Result (Data (convertRangeToInstantResult seed now rangeResult))"
  have k: "keyed (range_order seed ?um)"
    by (intro keyed_range_order keyed_track_unique) (simp add: keyed_def)
  have "wf_map ?um"
    by (rule wf_map_track_unique) (simp add: wf_map_def)
  then have wf: "wf_map (range_order seed ?um)"
    by (simp only: wf_map_range_order)
  have "map (\<lambda>r. fmt_Sprintf_v (Metric r)) ?out = map fmt_Sprintf_v (map Metric ?out)"
    by (simp add: comp_def)
  also have "\<dots> = map (\<lambda>p. fmt_Sprintf_v (Metric (snd p))) (range_order seed ?um)"
    by (simp add: Metric_convertRangeToInstantResult comp_def)
  also have "\<dots> = map fst (range_order seed ?um)"
    using k by (rule keyed_fst)
  finally have keys: "map (\<lambda>r. fmt_Sprintf_v (Metric r)) ?out = map fst (range_order seed ?um)" .
  have 1: "distinct (map (\<lambda>r. fmt_Sprintf_v (Metric r)) ?out)"
    unfolding keys using wf by (simp add: wf_map_def)
  have "set (map (\<lambda>r. fmt_Sprintf_v (Metric r)) ?out) = fst ` set ?um"
    unfolding keys by (simp add: set_range_order)
  then have 2: "(\<lambda>r. fmt_Sprintf_v (Metric r)) ` set ?out
      = (\<lambda>r. fmt_Sprintf_v (Metric r)) ` set (Result (Data rangeResult))"
    by (simp add: keys_track_unique)
  have "set (map Metric ?out) = Metric ` snd ` set ?um"
    unfolding Metric_convertRangeToInstantResult by (simp add: set_range_order image_image)
  with from_input_track_unique [of "[]" "Result (Data rangeResult)"]
  have 3: "Metric ` set ?out \<subseteq> Metric ` set (Result (Data rangeResult))"
    by simp
  from 1 2 3 show ?thesis by blast
qed

text \<open>
  When no two label sets of the response have the same rendering, that is one entry for
  every distinct label set.
\<close>

lemma convertRangeToInstantResult_one_per_labels:
  assumes "inj_on fmt_Sprintf_v (Metric ` set (Result (Data rangeResult)))"
  shows "distinct (map Metric (Result (Data (convertRangeToInstantResult seed now rangeResult)))) \<and>
     Metric ` set (Result (Data (convertRangeToInstantResult seed now rangeResult)))
       = Metric ` set (Result (Data rangeResult))"
proof -
  let ?out = "Result (Data (convertRangeToInstantResult seed now rangeResult))"
  let ?in = "Result (Data rangeResult)"
  note k = convertRangeToInstantResult_one_per_key [of seed now rangeResult]
  from k have "distinct (map fmt_Sprintf_v (map Metric ?out))" by (simp add: comp_def)
  then have 1: "distinct (map Metric ?out)" by (simp only: distinct_map)
  from k have sub: "Metric ` set ?out \<subseteq> Metric ` set ?in" by blast
  have "Metric ` set ?in \<subseteq> Metric ` set ?out"
  proof
    fix m assume m: "m \<in> Metric ` set ?in"
    then have "fmt_Sprintf_v m \<in> (\<lambda>r. fmt_Sprintf_v (Metric r)) ` set ?in" by auto
    with k have "fmt_Sprintf_v m \<in> (\<lambda>r. fmt_Sprintf_v (Metric r)) ` set ?out" by simp
    then obtain r where "r \<in> set ?out" and "fmt_Sprintf_v m = fmt_Sprintf_v (Metric r)"
      by (rule imageE)
    then have "Metric r \<in> Metric ` set ?out" and "fmt_Sprintf_v (Metric r) = fmt_Sprintf_v m"
      by simp_all
    then obtain m' where m': "m' \<in> Metric ` set ?out" and e: "fmt_Sprintf_v m' = fmt_Sprintf_v m"
      by blast
    from m' sub have "m' \<in> Metric ` set ?in" by blast
    with assms m e have "m' = m" by (meson inj_onD)
    with m' show "m \<in> Metric ` set ?out" by simp
  qed
  with sub 1 show ?thesis by blast
qed

text \<open>The timestamps and sample values of the series do not reach the result.\<close>

lemma convertRangeToInstantResult_discards_values:
  assumes "Status rangeResult' = Status rangeResult"
    and "map Metric (Result (Data rangeResult')) = map Metric (Result (Data rangeResult))"
  shows "convertRangeToInstantResult seed now rangeResult' =
         convertRangeToInstantResult seed now rangeResult"
  using assms track_unique_cong [OF assms(2), of "[]"]
  by (simp add: convertRangeToInstantResult_def)

lemma fmt_Sprintf_v_first:
  "fmt_Sprintf_v [(''destination_workload'', ''b response_code:200''), (''source_workload'', ''a'')]
   = ''map[destination_workload:b response_code:200 source_workload:a]''"
  by (simp add: fmt_Sprintf_v_def label_def)

lemma fmt_Sprintf_v_second:
  "fmt_Sprintf_v [(''destination_workload'', ''b''), (''response_code'', ''200''), (''source_workload'', ''a'')]
   = ''map[destination_workload:b response_code:200 source_workload:a]''"
  by (simp add: fmt_Sprintf_v_def label_def)

text \<open>
  Claim C5 does not hold of every ranged response. The key of \<open>uniqueMetrics\<close> is the
  rendering of the label set, and two label sets can have one rendering: on
  \<open>colliding_response\<close>, whatever the order of \<open>range\<close>, the result has one entry for two
  distinct label sets, and the edge from \<open>a\<close> to \<open>b\<close> of the second series is not in the
  adjacency list extracted from it. \<open>QueryMetrics\<close> with a time range returns this
  result when Prometheus answers with this response.
\<close>

theorem convertRangeToInstantResult_key_collision:
  "map_of [(''destination_workload'', ''b response_code:200''), (''source_workload'', ''a'')]
     \<noteq> map_of [(''destination_workload'', ''b''), (''response_code'', ''200''), (''source_workload'', ''a'')] \<and>
   convertRangeToInstantResult seed now colliding_response =
     \<lparr>Status = ''success'',
      Data = \<lparr>ResultType = [],
        Result =
          [\<lparr>Metric = [(''destination_workload'', ''b response_code:200''), (''source_workload'', ''a'')],
            Value = [AnyInt (Unix (now 0)), AnyString ''1'']\<rparr>]\<rparr>\<rparr> \<and>
   ExtractAdjacencyList (convertRangeToInstantResult seed now colliding_response) =
     [(''a'', [''b response_code:200''])] \<and>
   fst (QueryMetrics
          (example_env\<lparr>prometheus_query_range := (\<lambda>query start end' step. Decoded colliding_response)\<rparr>)
          [''a''] (Some 0) (Some 60000000000)) =
     Inr (convertRangeToInstantResult [] (\<lambda>i. 0) colliding_response)"
proof -
  have "map_of [(''destination_workload'', ''b response_code:200''), (''source_workload'', ''a'')] ''response_code''
     \<noteq> map_of [(''destination_workload'', ''b''), (''response_code'', ''200''), (''source_workload'', ''a'')] ''response_code''"
    by simp
  then have 1: "map_of [(''destination_workload'', ''b response_code:200''), (''source_workload'', ''a'')]
     \<noteq> map_of [(''destination_workload'', ''b''), (''response_code'', ''200''), (''source_workload'', ''a'')]"
    by metis
  have 2: "convertRangeToInstantResult seed now colliding_response =
     \<lparr>Status = ''success'',
      Data = \<lparr>ResultType = [],
        Result =
          [\<lparr>Metric = [(''destination_workload'', ''b response_code:200''), (''source_workload'', ''a'')],
            Value = [AnyInt (Unix (now 0)), AnyString ''1'']\<rparr>]\<rparr>\<rparr>"
    by (simp add: convertRangeToInstantResult_def colliding_response_def fmt_Sprintf_v_first
        fmt_Sprintf_v_second Let_def range_order_singleton)
  have 3: "ExtractAdjacencyList (convertRangeToInstantResult seed now colliding_response) =
     [(''a'', [''b response_code:200''])]"
    unfolding 2 by (simp add: ExtractAdjacencyList_def extract_entry_def label_def slice_at_def)
  have 4: "fst (QueryMetrics
          (example_env\<lparr>prometheus_query_range := (\<lambda>query start end' step. Decoded colliding_response)\<rparr>)
          [''a''] (Some 0) (Some 60000000000)) =
     Inr (convertRangeToInstantResult [] (\<lambda>i. 0) colliding_response)"
    by (simp add: QueryMetrics_def queryRange_def example_env_def colliding_response_def Let_def)
  from 1 2 3 4 show ?thesis by blast
qed

section \<open>The repository: counts of a snapshot, the latest snapshot\<close>

lemma total_connections_sum_list:
  "total_connections acc xs = acc + sum_list (map (\<lambda>(s, ds). int (length ds)) xs)"
  by (induction acc xs rule: total_connections.induct) simp_all

lemma sum_list_range_order:
  fixes f :: "'a \<Rightarrow> int"
  shows "sum_list (map f (range_order ns xs)) = sum_list (map f xs)"
proof -
  have "mset (map f (range_order ns xs)) = mset (map f xs)"
    by (simp add: mset_range_order)
  then have "sum_mset (mset (map f (range_order ns xs))) = sum_mset (mset (map f xs))"
    by (rule arg_cong)
  then show ?thesis by (simp only: sum_mset_sum_list)
qed

lemma slice_at_entry: "wf_map m \<Longrightarrow> (s, ds) \<in> set m \<Longrightarrow> slice_at m s = ds"
  by (simp add: wf_map_def slice_at_def)

lemma sum_list_wf_map:
  assumes "wf_map m"
  shows "sum_list (map (\<lambda>(s, ds). int (length ds)) m) = (\<Sum>s \<in> dom (map_of m). int (length (slice_at m s)))"
proof -
  from assms have d: "distinct m" and inj: "inj_on fst (set m)"
    by (simp_all add: wf_map_def distinct_map)
  have "sum_list (map (\<lambda>(s, ds). int (length ds)) m) = (\<Sum>p \<in> set m. case p of (s, ds) \<Rightarrow> int (length ds))"
    using d by (rule sum_list_distinct_conv_sum_set)
  also have "\<dots> = (\<Sum>p \<in> set m. int (length (slice_at m (fst p))))"
    by (rule sum.cong) (auto simp: slice_at_entry [OF assms])
  also have "\<dots> = (\<Sum>s \<in> fst ` set m. int (length (slice_at m s)))"
    using inj by (simp add: sum.reindex)
  finally show ?thesis by (simp add: dom_map_of_conv_image_fst)
qed

text \<open>
  Claim C2. For every adjacency mapping, the document that \<open>SaveAdjacencyList\<close> builds,
  and appends to the collection unless the driver fails, holds the mapping, has for
  \<open>TotalConnections\<close> the sum over the sources of the length of the source's destination
  list, and for \<open>SourceCount\<close> the number of sources of the mapping.
\<close>

theorem SaveAdjacencyList_counts:
  assumes "wf_map adjacencyList"
  shows "\<exists>doc.
     SaveAdjacencyList seed newObjectID now fault docs adjacencyList =
       (case fault of
          None \<Rightarrow> (Inr newObjectID, docs @ [doc])
        | Some e \<Rightarrow> (Inl (FailedToInsertDocument e), docs)) \<and>
     AdjacencyList doc = adjacencyList \<and>
     TotalConnections doc =
       (\<Sum>source \<in> dom (map_of adjacencyList). int (length (slice_at adjacencyList source))) \<and>
     SourceCount doc = int (card (dom (map_of adjacencyList)))"
proof -
  let ?doc = "\<lparr>ID = newObjectID, AdjacencyList = adjacencyList, Timestamp = bson_DateTime now,
               SourceCount = int (length adjacencyList),
               TotalConnections = total_connections 0 (range_order seed adjacencyList)\<rparr>"
  have 1: "SaveAdjacencyList seed newObjectID now fault docs adjacencyList =
       (case fault of
          None \<Rightarrow> (Inr newObjectID, docs @ [?doc])
        | Some e \<Rightarrow> (Inl (FailedToInsertDocument e), docs))"
    by (simp add: SaveAdjacencyList_def Let_def split: option.splits)
  have 2: "TotalConnections ?doc =
       (\<Sum>source \<in> dom (map_of adjacencyList). int (length (slice_at adjacencyList source)))"
    by (simp add: total_connections_sum_list sum_list_range_order sum_list_wf_map [OF assms])
  have 3: "SourceCount ?doc = int (card (dom (map_of adjacencyList)))"
    by (simp add: length_wf_map [OF assms])
  from 1 2 3 show ?thesis by (intro exI [of _ ?doc]) simp
qed

theorem SaveAdjacencyList_counts_witness:
  "wf_map example_adjacency \<and>
   (\<exists>doc. SaveAdjacencyList [1] 7 100 None [] example_adjacency = (Inr 7, [doc]) \<and>
      AdjacencyList doc = example_adjacency \<and> TotalConnections doc = 3 \<and> SourceCount doc = 2)"
proof -
  have wf: "wf_map example_adjacency"
    by (simp add: wf_map_def example_adjacency_def)
  have d: "dom (map_of example_adjacency) = {''app'', ''proxy''}"
    by (auto simp: example_adjacency_def)
  have t: "(\<Sum>source \<in> dom (map_of example_adjacency). int (length (slice_at example_adjacency source))) = 3"
    unfolding d by (simp add: slice_at_def example_adjacency_def)
  have c: "int (card (dom (map_of example_adjacency))) = 2"
    unfolding d by simp
  from SaveAdjacencyList_counts [OF wf, of "[1]" 7 100 None "[]"] t c
  have "\<exists>doc. SaveAdjacencyList [1] 7 100 None [] example_adjacency = (Inr 7, [doc]) \<and>
      AdjacencyList doc = example_adjacency \<and> TotalConnections doc = 3 \<and> SourceCount doc = 2"
    by simp
  with wf show ?thesis by blast
qed

lemma latest_documents_unique:
  assumes "doc \<in> set docs" and "\<forall>d \<in> set docs. d \<noteq> doc \<longrightarrow> Timestamp d < Timestamp doc"
  shows "set (latest_documents docs) = {doc}"
proof (rule set_eqI)
  fix d
  show "d \<in> set (latest_documents docs) \<longleftrightarrow> d \<in> {doc}"
  proof
    assume "d \<in> set (latest_documents docs)"
    then have d: "d \<in> set docs" and top: "\<forall>d' \<in> set docs. Timestamp d' \<le> Timestamp d"
      by (simp_all add: latest_documents_def list_all_iff)
    have "d = doc"
    proof (rule ccontr)
      assume "d \<noteq> doc"
      with assms(2) d have "Timestamp d < Timestamp doc" by blast
      moreover from top assms(1) have "Timestamp doc \<le> Timestamp d" by blast
      ultimately show False by simp
    qed
    then show "d \<in> {doc}" by simp
  next
    assume "d \<in> {doc}"
    then have e: "d = doc" by simp
    have "\<forall>d' \<in> set docs. Timestamp d' \<le> Timestamp doc"
    proof
      fix d' assume d': "d' \<in> set docs"
      show "Timestamp d' \<le> Timestamp doc"
      proof (cases "d' = doc")
        case True then show ?thesis by simp
      next
        case False
        with assms(2) d' have "Timestamp d' < Timestamp doc" by blast
        then show ?thesis by simp
      qed
    qed
    with assms(1) e show "d \<in> set (latest_documents docs)"
      by (simp add: latest_documents_def list_all_iff)
  qed
qed

lemma latest_documents_nonempty:
  assumes "docs \<noteq> []"
  shows "latest_documents docs \<noteq> []"
proof -
  from assms have "set (map Timestamp docs) \<noteq> {}" by simp
  then have "Max (set (map Timestamp docs)) \<in> set (map Timestamp docs)"
    by (intro Max_in) simp_all
  then obtain doc where doc: "doc \<in> set docs" and m: "Timestamp doc = Max (set (map Timestamp docs))"
    by auto
  have "\<forall>d' \<in> set docs. Timestamp d' \<le> Timestamp doc"
    unfolding m by (auto intro: Max_ge)
  with doc have "doc \<in> set (latest_documents docs)"
    by (simp add: latest_documents_def list_all_iff)
  then show ?thesis by auto
qed

lemma FindOne_sorted_latest:
  assumes "docs \<noteq> []"
  shows "\<exists>doc \<in> set (latest_documents docs). FindOne_sorted None tie docs = Inr doc"
proof -
  from latest_documents_nonempty [OF assms] obtain c cs where l: "latest_documents docs = c # cs"
    by (cases "latest_documents docs") auto
  have "tie mod length (c # cs) < length (c # cs)" by simp
  then have "(c # cs) ! (tie mod length (c # cs)) \<in> set (c # cs)" by (rule nth_mem)
  with l show ?thesis by (simp add: FindOne_sorted_def)
qed

lemma GetLatestAdjacencyList_latest:
  assumes "docs \<noteq> []"
  shows "\<exists>doc \<in> set docs. (\<forall>d \<in> set docs. Timestamp d \<le> Timestamp doc) \<and>
           GetLatestAdjacencyList None tie docs = Inr (Some (AdjacencyList doc))"
proof -
  from FindOne_sorted_latest [OF assms] obtain doc
    where doc: "doc \<in> set (latest_documents docs)" and f: "FindOne_sorted None tie docs = Inr doc"
    by blast
  from doc have "doc \<in> set docs" and "\<forall>d \<in> set docs. Timestamp d \<le> Timestamp doc"
    by (simp_all add: latest_documents_def list_all_iff)
  moreover from f have "GetLatestAdjacencyList None tie docs = Inr (Some (AdjacencyList doc))"
    by (simp add: GetLatestAdjacencyList_def)
  ultimately show ?thesis by blast
qed

lemma GetLatestAdjacencyList_unique:
  assumes "doc \<in> set docs" and "\<forall>d \<in> set docs. d \<noteq> doc \<longrightarrow> Timestamp d < Timestamp doc"
  shows "GetLatestAdjacencyList None tie docs = Inr (Some (AdjacencyList doc))"
proof -
  from assms(1) have "docs \<noteq> []" by auto
  from FindOne_sorted_latest [OF this] obtain d
    where "d \<in> set (latest_documents docs)" and f: "FindOne_sorted None tie docs = Inr d"
    by blast
  with latest_documents_unique [OF assms] have "d = doc" by simp
  with f show ?thesis by (simp add: GetLatestAdjacencyList_def)
qed

lemma snd_SaveAdjacencyList:
  "snd (SaveAdjacencyList seed newObjectID now None docs adjacencyList) =
     docs @ [\<lparr>ID = newObjectID, AdjacencyList = adjacencyList, Timestamp = bson_DateTime now,
               SourceCount = int (length adjacencyList),
               TotalConnections = total_connections 0 (range_order seed adjacencyList)\<rparr>]"
  by (simp add: SaveAdjacencyList_def Let_def)

text \<open>
  On a collection that is not empty \<open>GetLatestAdjacencyList\<close> returns the mapping of a
  stored document whose timestamp is the greatest. When one document has a timestamp
  greater than that of every other, it is the mapping of that document, whatever the
  database does among equal sort keys; so after \<open>SaveAdjacencyList\<close> of \<open>A1\<close> and then of
  \<open>A2\<close> in a later millisecond than every stored document, the result is \<open>A2\<close>.
\<close>

theorem save_then_getLatest:
  "(docs \<noteq> [] \<longrightarrow>
      (\<exists>doc \<in> set docs. (\<forall>d \<in> set docs. Timestamp d \<le> Timestamp doc) \<and>
         GetLatestAdjacencyList None tie docs = Inr (Some (AdjacencyList doc)))) \<and>
   (doc \<in> set docs \<and> (\<forall>d \<in> set docs. d \<noteq> doc \<longrightarrow> Timestamp d < Timestamp doc) \<longrightarrow>
      GetLatestAdjacencyList None tie docs = Inr (Some (AdjacencyList doc))) \<and>
   ((\<forall>d \<in> set docs. Timestamp d < bson_DateTime t2) \<and> bson_DateTime t1 < bson_DateTime t2 \<longrightarrow>
      GetLatestAdjacencyList None tie
        (snd (SaveAdjacencyList seed2 id2 t2 None
           (snd (SaveAdjacencyList seed1 id1 t1 None docs A1)) A2)) = Inr (Some A2))"
proof (intro conjI impI)
  assume "docs \<noteq> []"
  then show "\<exists>doc \<in> set docs. (\<forall>d \<in> set docs. Timestamp d \<le> Timestamp doc) \<and>
         GetLatestAdjacencyList None tie docs = Inr (Some (AdjacencyList doc))"
    by (rule GetLatestAdjacencyList_latest)
next
  assume "doc \<in> set docs \<and> (\<forall>d \<in> set docs. d \<noteq> doc \<longrightarrow> Timestamp d < Timestamp doc)"
  then show "GetLatestAdjacencyList None tie docs = Inr (Some (AdjacencyList doc))"
    using GetLatestAdjacencyList_unique by blast
next
  assume a: "(\<forall>d \<in> set docs. Timestamp d < bson_DateTime t2) \<and> bson_DateTime t1 < bson_DateTime t2"
  let ?d1 = "\<lparr>ID = id1, AdjacencyList = A1, Timestamp = bson_DateTime t1,
               SourceCount = int (length A1),
               TotalConnections = total_connections 0 (range_order seed1 A1)\<rparr>"
  let ?d2 = "\<lparr>ID = id2, AdjacencyList = A2, Timestamp = bson_DateTime t2,
               SourceCount = int (length A2),
               TotalConnections = total_connections 0 (range_order seed2 A2)\<rparr>"
  let ?docs2 = "docs @ [?d1, ?d2]"
  have s: "snd (SaveAdjacencyList seed2 id2 t2 None
           (snd (SaveAdjacencyList seed1 id1 t1 None docs A1)) A2) = ?docs2"
    by (simp add: snd_SaveAdjacencyList)
  have "?d2 \<in> set ?docs2" by simp
  moreover have "\<forall>d \<in> set ?docs2. d \<noteq> ?d2 \<longrightarrow> Timestamp d < Timestamp ?d2"
    using a by auto
  ultimately have "GetLatestAdjacencyList None tie ?docs2 = Inr (Some (AdjacencyList ?d2))"
    by (rule GetLatestAdjacencyList_unique)
  with s show "GetLatestAdjacencyList None tie
        (snd (SaveAdjacencyList seed2 id2 t2 None
           (snd (SaveAdjacencyList seed1 id1 t1 None docs A1)) A2)) = Inr (Some A2)"
    by simp
qed

theorem save_then_getLatest_witness:
  "GetLatestAdjacencyList None 3 [example_document] = Inr (Some [(''a'', [''b''])]) \<and>
   Timestamp example_document < bson_DateTime 3000000 \<and>
   bson_DateTime 2000000 < bson_DateTime 3000000 \<and>
   GetLatestAdjacencyList None 3
     (snd (SaveAdjacencyList [] 3 3000000 None
        (snd (SaveAdjacencyList [] 2 2000000 None [example_document] [(''a'', [''c''])]))
        example_adjacency))
     = Inr (Some example_adjacency)"
proof -
  note th = save_then_getLatest [where docs = "[example_document]" and tie = 3
      and doc = example_document and ?t1.0 = 2000000 and ?t2.0 = 3000000
      and ?seed1.0 = "[]" and ?seed2.0 = "[]"
      and ?id1.0 = 2 and ?id2.0 = 3 and ?A1.0 = "[(''a'', [''c''])]" and ?A2.0 = example_adjacency]
  have t: "Timestamp example_document < bson_DateTime 3000000"
    and u: "bson_DateTime 2000000 < bson_DateTime 3000000"
    by (simp_all add: example_document_def bson_DateTime_def)
  from th have 1: "GetLatestAdjacencyList None 3 [example_document] = Inr (Some (AdjacencyList example_document))"
    by simp
  from th t u have 2: "GetLatestAdjacencyList None 3
     (snd (SaveAdjacencyList [] 3 3000000 None
        (snd (SaveAdjacencyList [] 2 2000000 None [example_document] [(''a'', [''c''])]))
        example_adjacency))
     = Inr (Some example_adjacency)"
    by simp
  from 1 2 t u show ?thesis by (simp add: example_document_def)
qed

text \<open>
  Claim C3 does not hold of every pair of saves. \<open>GetLatestAdjacencyList\<close> sorts on
  \<open>timestamp\<close> alone, and the stored timestamp is cut to the millisecond. After a save
  of \<open>A1\<close> and a save of \<open>A2\<close> one nanosecond later, in the same millisecond, the two
  stored timestamps are equal and both documents come first in the order of the sort:
  nothing in the program tells the later from the earlier, and the result is the
  mapping \<open>A1\<close> when the database returns the first of the two, the mapping \<open>A2\<close> when
  it returns the second.
\<close>

theorem getLatest_same_millisecond_returns_older:
  "(5000000 :: int) < 5000001 \<and>
   map Timestamp
     (snd (SaveAdjacencyList [] 2 5000001 None
        (snd (SaveAdjacencyList [] 1 5000000 None [] [(''a'', [''b''])])) [(''a'', [''c''])]))
     = [5000000, 5000000] \<and>
   map AdjacencyList
     (latest_documents
        (snd (SaveAdjacencyList [] 2 5000001 None
           (snd (SaveAdjacencyList [] 1 5000000 None [] [(''a'', [''b''])])) [(''a'', [''c''])])))
     = [[(''a'', [''b''])], [(''a'', [''c''])]] \<and>
   GetLatestAdjacencyList None 0
     (snd (SaveAdjacencyList [] 2 5000001 None
        (snd (SaveAdjacencyList [] 1 5000000 None [] [(''a'', [''b''])])) [(''a'', [''c''])]))
     = Inr (Some [(''a'', [''b''])]) \<and>
   GetLatestAdjacencyList None 1
     (snd (SaveAdjacencyList [] 2 5000001 None
        (snd (SaveAdjacencyList [] 1 5000000 None [] [(''a'', [''b''])])) [(''a'', [''c''])]))
     = Inr (Some [(''a'', [''c''])])"
  by (simp add: snd_SaveAdjacencyList GetLatestAdjacencyList_def FindOne_sorted_def
      latest_documents_def bson_DateTime_def)

theorem getLatest_same_millisecond_returns_older_witness:
  "GetLatestAdjacencyList None 0
     (snd (SaveAdjacencyList [] 2 5000001 None
        (snd (SaveAdjacencyList [] 1 5000000 None [] [(''a'', [''b''])])) [(''a'', [''c''])]))
     = Inr (Some [(''a'', [''b''])])"
  using getLatest_same_millisecond_returns_older by simp

section \<open>The context assembler: one definition per workload\<close>

lemma keys_mark_workloads:
  "fst ` set (mark_workloads ws xs) = fst ` set ws \<union> set xs"
  by (induction ws xs rule: mark_workloads.induct) (auto simp: dom_update)

lemma wf_map_mark_workloads: "wf_map ws \<Longrightarrow> wf_map (mark_workloads ws xs)"
  by (induction ws xs rule: mark_workloads.induct) (simp_all add: wf_map_def distinct_update)

lemma keys_collect_workloads:
  "fst ` set (collect_workloads ws adj) =
     fst ` set ws \<union> fst ` set adj \<union> (\<Union>p \<in> set adj. set (snd p))"
proof (induction ws adj rule: collect_workloads.induct)
  case (1 ws)
  show ?case by simp
next
  case (2 ws source destinations rest)
  show ?case
    unfolding collect_workloads.simps "2.IH" keys_mark_workloads dom_update
    by auto
qed

lemma wf_map_collect_workloads: "wf_map ws \<Longrightarrow> wf_map (collect_workloads ws adj)"
proof (induction ws adj rule: collect_workloads.induct)
  case (1 ws)
  then show ?case by simp
next
  case (2 ws source destinations rest)
  from "2.prems" have "wf_map (AList.update source True ws)"
    by (simp add: wf_map_def distinct_update)
  then have "wf_map (mark_workloads (AList.update source True ws) destinations)"
    by (rule wf_map_mark_workloads)
  then show ?case using "2.IH" by simp
qed

lemma set_reverse_deps_of:
  "set (reverse_deps_of acc source workload ds) =
     set acc \<union> (if workload \<in> set ds then {source} else {})"
  by (induction acc source workload ds rule: reverse_deps_of.induct) auto

lemma set_reverse_deps:
  "set (reverse_deps acc workload adj) =
     set acc \<union> {source. \<exists>ds. (source, ds) \<in> set adj \<and> workload \<in> set ds}"
proof (induction acc workload adj rule: reverse_deps.induct)
  case (1 acc workload)
  show ?case by simp
next
  case (2 acc workload source destinations rest)
  show ?case
    unfolding reverse_deps.simps "2.IH" set_reverse_deps_of
    by auto
qed

lemma set_reverse_deps_range:
  assumes "wf_map adj"
  shows "set (reverse_deps [] workload (range_order seed adj)) = dependents_of adj workload"
proof -
  have "\<And>s ds. (s, ds) \<in> set adj \<longleftrightarrow> map_of adj s = Some ds"
    using assms by (simp add: wf_map_def)
  then show ?thesis
    by (simp add: set_reverse_deps set_range_order dependents_of_def)
qed

lemma buildTopology_dependencies:
  "map_of (buildTopology seed adj workload) ''dependencies'' =
     (case map_of adj workload of
        None \<Rightarrow> None
      | Some destinations \<Rightarrow> if destinations = [] then None else Some destinations)"
  by (simp add: buildTopology_def Let_def update_conv' split: option.splits)

lemma buildTopology_dependents:
  "map_of (buildTopology seed adj workload) ''dependents'' =
     (let reverseDeps = reverse_deps [] workload (range_order seed adj)
      in if reverseDeps = [] then None else Some reverseDeps)"
  by (simp add: buildTopology_def Let_def update_conv' split: option.splits)

lemma Topology_context_definition:
  "Topology (context_definition seed adj config workload) = buildTopology seed adj workload"
  by (simp add: context_definition_def Let_def)

lemma workload_of_context_definition:
  "workload_of (context_definition seed adj config workload) = workload"
  by (simp add: context_definition_def Let_def workload_of_def label_def)

lemma buildContextDefinitions_map:
  "buildContextDefinitions seeds adj config =
     map (\<lambda>w. context_definition (topology_seed seeds w) adj config w)
       (map fst (range_order (define_seed seeds)
          (mark_workloads (collect_workloads [] (range_order (collect_seed seeds) adj))
             (Workload config))))"
  by (simp add: buildContextDefinitions_def Let_def case_prod_beta)

lemma workloads_buildContextDefinitions:
  "map workload_of (buildContextDefinitions seeds adj config) =
     map fst (range_order (define_seed seeds)
          (mark_workloads (collect_workloads [] (range_order (collect_seed seeds) adj))
             (Workload config)))"
  by (simp add: buildContextDefinitions_map comp_def workload_of_context_definition)

lemma workloads_of_entries:
  assumes "wf_map adj"
  shows "workloads_of adj = fst ` set adj \<union> (\<Union>p \<in> set adj. set (snd p))"
proof -
  have e: "\<And>s ds. (s, ds) \<in> set adj \<longleftrightarrow> map_of adj s = Some ds"
    using assms by (simp add: wf_map_def)
  have "{dest. \<exists>source. dest \<in> set (slice_at adj source)} = (\<Union>p \<in> set adj. set (snd p))"
  proof (rule set_eqI)
    fix dest
    show "dest \<in> {dest. \<exists>source. dest \<in> set (slice_at adj source)} \<longleftrightarrow> dest \<in> (\<Union>p \<in> set adj. set (snd p))"
    proof
      assume "dest \<in> {dest. \<exists>source. dest \<in> set (slice_at adj source)}"
      then obtain source where d: "dest \<in> set (slice_at adj source)" by blast
      then obtain ds where "map_of adj source = Some ds" and "dest \<in> set ds"
        by (cases "map_of adj source") (simp_all add: slice_at_def)
      with e have "(source, ds) \<in> set adj" by simp
      with \<open>dest \<in> set ds\<close> show "dest \<in> (\<Union>p \<in> set adj. set (snd p))" by force
    next
      assume "dest \<in> (\<Union>p \<in> set adj. set (snd p))"
      then obtain s ds where "(s, ds) \<in> set adj" and "dest \<in> set ds" by force
      with e have "dest \<in> set (slice_at adj s)" by (simp add: slice_at_def)
      then show "dest \<in> {dest. \<exists>source. dest \<in> set (slice_at adj source)}" by blast
    qed
  qed
  then show ?thesis by (simp add: workloads_of_def dom_map_of_conv_image_fst)
qed

text \<open>
  Claim C1. For every adjacency mapping and configuration, and whatever the orders of
  \<open>range\<close>, \<open>buildContextDefinitions\<close> returns one context definition for each workload
  that is configured or occurs in the mapping as a source or a destination, and no
  other. In the definition of a workload \<open>w\<close>, \<open>dependencies\<close> is the entry of \<open>w\<close> in the
  mapping when there is one and it is not empty, and is absent otherwise;
  \<open>dependents\<close> lists the sources that have \<open>w\<close> among their destinations, and is absent
  when there is none.
\<close>

theorem buildContextDefinitions_one_per_workload:
  assumes "wf_map adjacencyList"
  shows "distinct (map workload_of (buildContextDefinitions seeds adjacencyList config)) \<and>
     set (map workload_of (buildContextDefinitions seeds adjacencyList config)) =
       set (Workload config) \<union> workloads_of adjacencyList \<and>
     (\<forall>contextDef \<in> set (buildContextDefinitions seeds adjacencyList config).
        map_of (Topology contextDef) ''dependencies'' =
          (case map_of adjacencyList (workload_of contextDef) of
             None \<Rightarrow> None
           | Some destinations \<Rightarrow> if destinations = [] then None else Some destinations) \<and>
        (case map_of (Topology contextDef) ''dependents'' of
           None \<Rightarrow> dependents_of adjacencyList (workload_of contextDef) = {}
         | Some reverseDeps \<Rightarrow>
             reverseDeps \<noteq> [] \<and> set reverseDeps = dependents_of adjacencyList (workload_of contextDef)))"
proof (intro conjI ballI)
  let ?ws = "mark_workloads (collect_workloads [] (range_order (collect_seed seeds) adjacencyList))
               (Workload config)"
  have "wf_map ?ws"
    by (intro wf_map_mark_workloads wf_map_collect_workloads) (simp add: wf_map_def)
  then have "wf_map (range_order (define_seed seeds) ?ws)"
    by (simp add: wf_map_range_order)
  then show "distinct (map workload_of (buildContextDefinitions seeds adjacencyList config))"
    by (simp add: workloads_buildContextDefinitions wf_map_def)
  have "set (map fst (range_order (define_seed seeds) ?ws)) = fst ` set ?ws"
    by (simp add: set_range_order)
  also have "\<dots> = set (Workload config) \<union> (fst ` set adjacencyList \<union> (\<Union>p \<in> set adjacencyList. set (snd p)))"
    by (simp add: keys_mark_workloads keys_collect_workloads set_range_order Un_commute)
  finally show "set (map workload_of (buildContextDefinitions seeds adjacencyList config)) =
       set (Workload config) \<union> workloads_of adjacencyList"
    by (simp only: workloads_buildContextDefinitions workloads_of_entries [OF assms])
next
  fix contextDef
  assume "contextDef \<in> set (buildContextDefinitions seeds adjacencyList config)"
  then obtain w where cd: "contextDef = context_definition (topology_seed seeds w) adjacencyList config w"
    unfolding buildContextDefinitions_map by auto
  have w: "workload_of contextDef = w"
    by (simp add: cd workload_of_context_definition)
  have t: "Topology contextDef = buildTopology (topology_seed seeds w) adjacencyList w"
    by (simp add: cd Topology_context_definition)
  show "map_of (Topology contextDef) ''dependencies'' =
          (case map_of adjacencyList (workload_of contextDef) of
             None \<Rightarrow> None
           | Some destinations \<Rightarrow> if destinations = [] then None else Some destinations)"
    unfolding w t by (rule buildTopology_dependencies)
  have r: "set (reverse_deps [] w (range_order (topology_seed seeds w) adjacencyList))
             = dependents_of adjacencyList w"
    using assms by (rule set_reverse_deps_range)
  show "case map_of (Topology contextDef) ''dependents'' of
           None \<Rightarrow> dependents_of adjacencyList (workload_of contextDef) = {}
         | Some reverseDeps \<Rightarrow>
             reverseDeps \<noteq> [] \<and> set reverseDeps = dependents_of adjacencyList (workload_of contextDef)"
  proof (cases "reverse_deps [] w (range_order (topology_seed seeds w) adjacencyList) = []")
    case True
    with r have "dependents_of adjacencyList w = {}" by simp
    with True show ?thesis unfolding w t buildTopology_dependents by simp
  next
    case False
    with r show ?thesis unfolding w t buildTopology_dependents by simp
  qed
qed

lemma example_contexts:
  "map (\<lambda>cd. (workload_of cd, Topology cd))
     (buildContextDefinitions example_seeds example_adjacency example_config) =
   [(''database'', [(''dependents'', [''app''])]),
    (''proxy'', [(''dependencies'', [''app''])]),
    (''app'', [(''dependencies'', [''database'', ''cache'']), (''dependents'', [''proxy''])]),
    (''cache'', [(''dependents'', [''app''])])]"
  by (simp add: buildContextDefinitions_def example_seeds_def example_adjacency_def example_config_def
      context_definition_def buildTopology_def workload_of_def label_def Let_def)

theorem buildContextDefinitions_one_per_workload_witness:
  "wf_map example_adjacency \<and>
   map (\<lambda>cd. (workload_of cd, Topology cd))
     (buildContextDefinitions example_seeds example_adjacency example_config) =
   [(''database'', [(''dependents'', [''app''])]),
    (''proxy'', [(''dependencies'', [''app''])]),
    (''app'', [(''dependencies'', [''database'', ''cache'']), (''dependents'', [''proxy''])]),
    (''cache'', [(''dependents'', [''app''])])] \<and>
   set (Workload example_config) \<union> workloads_of example_adjacency =
     {''database'', ''proxy'', ''app'', ''cache''} \<and>
   dependents_of example_adjacency ''app'' = {''proxy''} \<and>
   dependents_of example_adjacency ''proxy'' = {}"
proof -
  let ?cds = "buildContextDefinitions example_seeds example_adjacency example_config"
  have wf: "wf_map example_adjacency"
    by (simp add: wf_map_def example_adjacency_def)
  note th = buildContextDefinitions_one_per_workload [OF wf, of example_seeds example_config]
  have ws: "map workload_of ?cds = [''database'', ''proxy'', ''app'', ''cache'']"
    using arg_cong [OF example_contexts, of "map fst"] by (simp add: comp_def)
  from th have "set (map workload_of ?cds) = set (Workload example_config) \<union> workloads_of example_adjacency"
    by blast
  with ws have 1: "set (Workload example_config) \<union> workloads_of example_adjacency =
     {''database'', ''proxy'', ''app'', ''cache''}"
    by auto
  obtain c1 c2 c3 c4 where cds: "?cds = [c1, c2, c3, c4]"
    and c2: "workload_of c2 = ''proxy''" "Topology c2 = [(''dependencies'', [''app''])]"
    and c3: "workload_of c3 = ''app''"
       "Topology c3 = [(''dependencies'', [''database'', ''cache'']), (''dependents'', [''proxy''])]"
    using example_contexts by (auto simp: map_eq_Cons_conv)
  from th cds have
    "case map_of (Topology c3) ''dependents'' of
       None \<Rightarrow> dependents_of example_adjacency (workload_of c3) = {}
     | Some reverseDeps \<Rightarrow>
         reverseDeps \<noteq> [] \<and> set reverseDeps = dependents_of example_adjacency (workload_of c3)"
    by simp
  with c3 have 2: "dependents_of example_adjacency ''app'' = {''proxy''}" by simp
  from th cds have
    "case map_of (Topology c2) ''dependents'' of
       None \<Rightarrow> dependents_of example_adjacency (workload_of c2) = {}
     | Some reverseDeps \<Rightarrow>
         reverseDeps \<noteq> [] \<and> set reverseDeps = dependents_of example_adjacency (workload_of c2)"
    by simp
  with c2 have 3: "dependents_of example_adjacency ''proxy'' = {}" by simp
  from wf example_contexts 1 2 3 show ?thesis by blast
qed

section \<open>The handlers: an empty store, and requests rejected before any call\<close>

lemma buildTopology_empty: "buildTopology seed [] workload = []"
  by (simp add: buildTopology_def range_order_Nil)

lemma context_definition_empty:
  "context_definition seed [] config workload =
     \<lparr>Policy = Policy config, Metrics = Metrics config, ResourceID = ''workload-'' @ workload,
      Domain' = ''compute.k8s'', Identity = [(''workload'', workload)], Topology = []\<rparr>"
  by (simp add: context_definition_def buildTopology_empty)

text \<open>
  Claim C6. When the collection is empty and the driver does not fail,
  \<open>GetLatestAdjacencyList\<close> returns the nil map, which has no entry, and no error;
  \<open>getOCSPromptHandler\<close> then answers 200 with one context definition for every
  configured workload, none of which has a topology.
\<close>

theorem empty_store_is_no_error:
  assumes "find_fault e = None"
  shows "GetLatestAdjacencyList (find_fault e) (find_tie e) [] = Inr None \<and>
     (\<exists>ws. distinct ws \<and> set ws = set (Workload (ocsConfig s)) \<and>
        getOCSPromptHandler e s [] =
          \<lparr>code = 200,
           json = PromptBody
             \<lparr>SpecVersion = ''0.1'',
              ContextDefinitions =
                map (\<lambda>w. \<lparr>Policy = Policy (ocsConfig s), Metrics = Metrics (ocsConfig s),
                           ResourceID = ''workload-'' @ w, Domain' = ''compute.k8s'',
                           Identity = [(''workload'', w)], Topology = []\<rparr>) ws\<rparr>\<rparr>)"
proof -
  let ?ws = "map fst (range_order (define_seed (context_seeds e))
               (mark_workloads [] (Workload (ocsConfig s))))"
  have g: "GetLatestAdjacencyList (find_fault e) (find_tie e) [] = Inr None"
    using assms by (simp add: GetLatestAdjacencyList_def FindOne_sorted_def latest_documents_def)
  have "wf_map (mark_workloads [] (Workload (ocsConfig s)))"
    by (rule wf_map_mark_workloads) (simp add: wf_map_def)
  then have "wf_map (range_order (define_seed (context_seeds e))
               (mark_workloads [] (Workload (ocsConfig s))))"
    by (simp only: wf_map_range_order)
  then have d: "distinct ?ws"
    by (simp only: wf_map_def)
  have k: "set ?ws = set (Workload (ocsConfig s))"
    by (simp add: set_range_order keys_mark_workloads)
  have "buildContextDefinitions (context_seeds e) [] (ocsConfig s) =
      map (\<lambda>w. \<lparr>Policy = Policy (ocsConfig s), Metrics = Metrics (ocsConfig s),
                 ResourceID = ''workload-'' @ w, Domain' = ''compute.k8s'',
                 Identity = [(''workload'', w)], Topology = []\<rparr>) ?ws"
    by (simp add: buildContextDefinitions_map context_definition_empty range_order_Nil)
  with g have h: "getOCSPromptHandler e s [] =
          \<lparr>code = 200,
           json = PromptBody
             \<lparr>SpecVersion = ''0.1'',
              ContextDefinitions =
                map (\<lambda>w. \<lparr>Policy = Policy (ocsConfig s), Metrics = Metrics (ocsConfig s),
                           ResourceID = ''workload-'' @ w, Domain' = ''compute.k8s'',
                           Identity = [(''workload'', w)], Topology = []\<rparr>) ?ws\<rparr>\<rparr>"
    by (simp add: getOCSPromptHandler_def)
  from g d k h show ?thesis by blast
qed

theorem empty_store_is_no_error_witness:
  "find_fault example_env = None \<and>
   GetLatestAdjacencyList (find_fault example_env) (find_tie example_env) [] = Inr None \<and>
   code (getOCSPromptHandler example_env example_server []) = 200"
proof -
  have f: "find_fault example_env = None" by (simp add: example_env_def)
  from empty_store_is_no_error [OF f, of example_server] f show ?thesis by auto
qed

text \<open>
  When the request gives both timestamps and \<open>After\<close> holds of the two parsed times,
  \<open>parseTimestampParams\<close> returns an error, and \<open>collectIstioMetricsHandler\<close> answers 400
  without a call to Prometheus or MongoDB and leaves the collection as it was.
\<close>

theorem inverted_range_rejected_before_io:
  assumes "Query c ''from_timestamp'' \<noteq> []" and "Query c ''to_timestamp'' \<noteq> []"
    and "parseTimestamp e (Query c ''from_timestamp'') = Inr fromTime"
    and "parseTimestamp e (Query c ''to_timestamp'') = Inr toTime"
    and "After fromTime toTime"
  shows "parseTimestampParams e c (ocsConfig s) = Inl FromTimestampMustBeBeforeToTimestamp \<and>
     collectIstioMetricsHandler e s c docs =
       (\<lparr>code = 400,
         json = ErrorBody (if Workload (ocsConfig s) = [] then NoSourceWorkloadsConfigured
                           else ErrorText FromTimestampMustBeBeforeToTimestamp)\<rparr>,
        [], docs)"
proof -
  have p: "parseTimestampParams e c (ocsConfig s) = Inl FromTimestampMustBeBeforeToTimestamp"
    using assms by (simp add: parseTimestampParams_def Let_def)
  then show ?thesis by (simp add: collectIstioMetricsHandler_def)
qed

theorem inverted_range_rejected_before_io_witness:
  "After (time_Unix 200 0) (time_Unix 100 0) \<and>
   collectIstioMetricsHandler example_env example_server example_inverted [] =
     (\<lparr>code = 400, json = ErrorBody (ErrorText FromTimestampMustBeBeforeToTimestamp)\<rparr>, [], [])"
proof -
  have 1: "Query example_inverted ''from_timestamp'' \<noteq> []"
    and 2: "Query example_inverted ''to_timestamp'' \<noteq> []"
    by (simp_all add: Query_def example_inverted_def)
  have 3: "parseTimestamp example_env (Query example_inverted ''from_timestamp'') = Inr (time_Unix 200 0)"
    and 4: "parseTimestamp example_env (Query example_inverted ''to_timestamp'') = Inr (time_Unix 100 0)"
    by (simp_all add: Query_def example_inverted_def parseTimestamp_def example_env_def example_ParseInt_def)
  have 5: "After (time_Unix 200 0) (time_Unix 100 0)"
    by (simp add: After_def time_Unix_def wrap64_def unixToInternal_def)
  have w: "Workload (ocsConfig example_server) \<noteq> []"
    by (simp add: example_server_def example_config_def)
  from inverted_range_rejected_before_io [OF 1 2 3 4 5, of example_server "[]"] w 5
  show ?thesis by simp
qed

lemma wrap64_id: "- (2 ^ 63) \<le> x \<Longrightarrow> x < 2 ^ 63 \<Longrightarrow> wrap64 x = x"
  unfolding wrap64_def by (simp add: signed_of_int signed_take_bit_int_eq_self)

lemma time_Unix_in_range:
  assumes "- (2 ^ 63) \<le> sec + unixToInternal" and "sec + unixToInternal < 2 ^ 63"
  shows "time_Unix sec nsec = sec * 1000000000 + nsec"
  using wrap64_id [OF assms] by (simp add: time_Unix_def)

text \<open>
  For Unix timestamps below \<open>2^63 - 62135596800\<close>, \<open>After\<close> is the order of the numbers.
\<close>

lemma After_time_Unix_in_range:
  assumes "- (2 ^ 63) \<le> a + unixToInternal" and "a + unixToInternal < 2 ^ 63"
    and "- (2 ^ 63) \<le> b + unixToInternal" and "b + unixToInternal < 2 ^ 63"
  shows "After (time_Unix a 0) (time_Unix b 0) \<longleftrightarrow> a > b"
  by (simp add: After_def time_Unix_in_range [OF assms(1,2)] time_Unix_in_range [OF assms(3,4)])

lemma parseTimestamp_example_overflow:
  "parseTimestamp example_env ''9223372036854775807'' = Inr (- 9223372036854775809000000000)"
  "parseTimestamp example_env ''0'' = Inr 0"
  by (simp_all add: parseTimestamp_def example_env_def example_ParseInt_def time_Unix_def
      wrap64_def unixToInternal_def)

lemma parseTimestampParams_example_overflow:
  "parseTimestampParams example_env example_overflow example_config =
     Inr (Some (- 9223372036854775809000000000), Some 0)"
  by (simp add: parseTimestampParams_def Query_def example_overflow_def
      parseTimestamp_example_overflow After_def Let_def)

text \<open>
  Claim C8 does not hold of every request. \<open>from_timestamp=9223372036854775807\<close> is
  after \<open>to_timestamp=0\<close>, but \<open>time.Unix\<close> overflows the counter of the first, \<open>After\<close>
  is false of the two times, \<open>parseTimestampParams\<close> returns them without an error, and
  the handler sends the range query, with this start and this end, to Prometheus.
\<close>

theorem inverted_range_overflow_reaches_prometheus:
  "(9223372036854775807 :: int) > 0 \<and>
   parseTimestampParams example_env example_overflow (ocsConfig example_server) =
     Inr (Some (time_Unix 9223372036854775807 0), Some (time_Unix 0 0)) \<and>
   \<not> After (time_Unix 9223372036854775807 0) (time_Unix 0 0) \<and>
   collectIstioMetricsHandler example_env example_server example_overflow [] =
     (\<lparr>code = 500,
       json = ErrorBody (FailedToQueryPrometheus (FailedToExecuteRequest ''connection refused''))\<rparr>,
      [PrometheusQueryRange
         (''istio_requests_total{source_workload=~'' @ [CHR 0x22] @ ''database|cache|app|proxy''
            @ [CHR 0x22] @ ''}'')
         9223372036854775807 0 ''15s''],
      [])"
proof -
  have t1: "time_Unix 9223372036854775807 0 = - 9223372036854775809000000000"
    by (simp add: time_Unix_def wrap64_def unixToInternal_def)
  have t0: "time_Unix 0 0 = 0"
    by (simp add: time_Unix_def wrap64_def unixToInternal_def)
  have p: "parseTimestampParams example_env example_overflow (ocsConfig example_server) =
     Inr (Some (time_Unix 9223372036854775807 0), Some (time_Unix 0 0))"
    unfolding t1 t0 by (simp add: example_server_def parseTimestampParams_example_overflow)
  have a: "\<not> After (time_Unix 9223372036854775807 0) (time_Unix 0 0)"
    unfolding t1 t0 by (simp add: After_def)
  have u: "Unix (- 9223372036854775809000000000) = 9223372036854775807" "Unix 0 = 0"
    by (simp_all add: Unix_def wrap64_def)
  have w: "Workload (ocsConfig example_server) = [''database'', ''cache'', ''app'', ''proxy'']"
    by (simp add: example_server_def example_config_def)
  have q: "QueryMetrics example_env [''database'', ''cache'', ''app'', ''proxy'']
             (Some (- 9223372036854775809000000000)) (Some 0) =
           (Inl (FailedToExecuteRequest ''connection refused''),
            [PrometheusQueryRange
               (''istio_requests_total{source_workload=~'' @ [CHR 0x22] @ ''database|cache|app|proxy''
                  @ [CHR 0x22] @ ''}'')
               9223372036854775807 0 ''15s''])"
    by (simp add: QueryMetrics_def queryRange_def u example_env_def Let_def)
  have h: "collectIstioMetricsHandler example_env example_server example_overflow [] =
     (\<lparr>code = 500,
       json = ErrorBody (FailedToQueryPrometheus (FailedToExecuteRequest ''connection refused''))\<rparr>,
      [PrometheusQueryRange
         (''istio_requests_total{source_workload=~'' @ [CHR 0x22] @ ''database|cache|app|proxy''
            @ [CHR 0x22] @ ''}'')
         9223372036854775807 0 ''15s''],
      [])"
    using p [unfolded t1 t0] by (simp add: collectIstioMetricsHandler_def w q)
  from p a h show ?thesis by simp
qed

theorem inverted_range_overflow_reaches_prometheus_witness:
  "code (fst (collectIstioMetricsHandler example_env example_server example_overflow [])) = 500 \<and>
   length (fst (snd (collectIstioMetricsHandler example_env example_server example_overflow []))) = 1"
  using inverted_range_overflow_reaches_prometheus by simp

text \<open>
  Claim C10. When the request gives one of \<open>from_timestamp\<close> and \<open>to_timestamp\<close> and not
  the other, \<open>parseTimestampParams\<close> returns an error (the timestamp does not parse, or
  both must be given together), and \<open>collectIstioMetricsHandler\<close> answers 400 without a
  call to Prometheus or MongoDB.
\<close>

theorem lone_timestamp_rejected_before_io:
  assumes "(Query c ''from_timestamp'' \<noteq> [] \<and> Query c ''to_timestamp'' = []) \<or>
           (Query c ''from_timestamp'' = [] \<and> Query c ''to_timestamp'' \<noteq> [])"
  shows "\<exists>err. parseTimestampParams e c (ocsConfig s) = Inl err \<and>
     err \<in> {BothTimestampsOrNeither,
            InvalidFromTimestampFormat UnableToParseTimestamp,
            InvalidToTimestampFormat UnableToParseTimestamp} \<and>
     collectIstioMetricsHandler e s c docs =
       (\<lparr>code = 400,
         json = ErrorBody (if Workload (ocsConfig s) = [] then NoSourceWorkloadsConfigured
                           else ErrorText err)\<rparr>,
        [], docs)"
proof -
  have pt: "\<And>str. parseTimestamp e str = Inl UnableToParseTimestamp \<or> (\<exists>t. parseTimestamp e str = Inr t)"
    by (simp add: parseTimestamp_def split: option.splits)
  from assms have "\<exists>err. parseTimestampParams e c (ocsConfig s) = Inl err \<and>
     err \<in> {BothTimestampsOrNeither,
            InvalidFromTimestampFormat UnableToParseTimestamp,
            InvalidToTimestampFormat UnableToParseTimestamp}"
  proof
    assume a: "Query c ''from_timestamp'' \<noteq> [] \<and> Query c ''to_timestamp'' = []"
    from pt [of "Query c ''from_timestamp''"] show ?thesis
    proof
      assume "parseTimestamp e (Query c ''from_timestamp'') = Inl UnableToParseTimestamp"
      with a show ?thesis by (simp add: parseTimestampParams_def Let_def)
    next
      assume "\<exists>t. parseTimestamp e (Query c ''from_timestamp'') = Inr t"
      then obtain t where "parseTimestamp e (Query c ''from_timestamp'') = Inr t" ..
      with a show ?thesis by (simp add: parseTimestampParams_def Let_def)
    qed
  next
    assume a: "Query c ''from_timestamp'' = [] \<and> Query c ''to_timestamp'' \<noteq> []"
    from pt [of "Query c ''to_timestamp''"] show ?thesis
    proof
      assume "parseTimestamp e (Query c ''to_timestamp'') = Inl UnableToParseTimestamp"
      with a show ?thesis by (simp add: parseTimestampParams_def Let_def)
    next
      assume "\<exists>t. parseTimestamp e (Query c ''to_timestamp'') = Inr t"
      then obtain t where "parseTimestamp e (Query c ''to_timestamp'') = Inr t" ..
      with a show ?thesis by (simp add: parseTimestampParams_def Let_def)
    qed
  qed
  then obtain err where p: "parseTimestampParams e c (ocsConfig s) = Inl err"
    and m: "err \<in> {BothTimestampsOrNeither,
            InvalidFromTimestampFormat UnableToParseTimestamp,
            InvalidToTimestampFormat UnableToParseTimestamp}"
    by blast
  from p have "collectIstioMetricsHandler e s c docs =
       (\<lparr>code = 400,
         json = ErrorBody (if Workload (ocsConfig s) = [] then NoSourceWorkloadsConfigured
                           else ErrorText err)\<rparr>,
        [], docs)"
    by (simp add: collectIstioMetricsHandler_def)
  with p m show ?thesis by blast
qed

theorem lone_timestamp_rejected_before_io_witness:
  "Query example_lone ''from_timestamp'' \<noteq> [] \<and> Query example_lone ''to_timestamp'' = [] \<and>
   (\<exists>err. collectIstioMetricsHandler example_env example_server example_lone [] =
     (\<lparr>code = 400, json = ErrorBody (ErrorText err)\<rparr>, [], []))"
proof -
  have 1: "Query example_lone ''from_timestamp'' \<noteq> [] \<and> Query example_lone ''to_timestamp'' = []"
    by (simp add: Query_def example_lone_def)
  have w: "Workload (ocsConfig example_server) \<noteq> []"
    by (simp add: example_server_def example_config_def)
  from lone_timestamp_rejected_before_io [OF disjI1 [OF 1], of example_env example_server "[]"] w
  have "\<exists>err. collectIstioMetricsHandler example_env example_server example_lone [] =
     (\<lparr>code = 400, json = ErrorBody (ErrorText err)\<rparr>, [], [])"
    by auto
  with 1 show ?thesis by blast
qed

end
